theory Spec2Isabelle
  imports Complex_Main
begin

section \<open>The plagiarism detector of the quiz server\<close>

text \<open>
  A shallow embedding of the class \<open>PlagiarismDetector\<close>: answer similarity, typing-pattern
  analysis, time anomalies, their weighted aggregation and the batch report.

  Conventions of the embedding.
  \<^item> JavaScript numbers are modelled as \<^typ>\<open>real\<close> (counts and indices as \<^typ>\<open>nat\<close>):
    the arithmetic is the exact one, without the rounding of IEEE doubles, and there is
    no \<open>NaN\<close>, infinity or negative zero.
  \<^item> Strings are \<^typ>\<open>string\<close>: sequences of 8-bit code units, read as Latin-1.
  \<^item> The three thresholds of the constructor are the constants
    \<open>similarityThreshold\<close>, \<open>typingSpeedThreshold_min/max\<close> and \<open>suspiciousTimeThreshold\<close>.
  \<^item> The wall-clock fields \<open>timestamp\<close> of an analysis and \<open>generatedAt\<close> of a batch report
    (both \<open>new Date().toISOString()\<close>) are left out, and so are the rendered \<open>value\<close> and
    \<open>expected\<close> texts of an issue, which only format numbers for display.
  \<^item> A dereference of \<open>null\<close> is the fault \<open>TypeError\<close>, a value of the result type.
\<close>

subsection \<open>Constants of the constructor\<close>

definition similarityThreshold :: real where
  "similarityThreshold = 85 / 100"

definition typingSpeedThreshold_min :: real where
  "typingSpeedThreshold_min = 10"

definition typingSpeedThreshold_max :: real where
  "typingSpeedThreshold_max = 500"

definition suspiciousTimeThreshold :: real where
  "suspiciousTimeThreshold = 2"

subsection \<open>Strings: \<open>toLowerCase\<close>, \<open>trim\<close>, \<open>split(/\s+/)\<close>\<close>

text \<open>
  The white space of \<open>trim\<close> and of the class \<open>\s\<close>, among the code units below 256:
  tab, line feed, vertical tab, form feed, carriage return, space and no-break space.
\<close>

definition isWhiteSpace :: "char \<Rightarrow> bool" where
  "isWhiteSpace c \<longleftrightarrow> (of_char c :: nat) \<in> {9, 10, 11, 12, 13, 32, 160}"

text \<open>
  \<open>toLowerCase\<close> on Latin-1: the letters A to Z, and the accented capitals from
  code 192 to 222 (but not the multiplication sign, 215), move up by 32.
\<close>

definition toLowerChar :: "char \<Rightarrow> char" where
  "toLowerChar c =
     (let n = (of_char c :: nat)
      in if (65 \<le> n \<and> n \<le> 90) \<or> (192 \<le> n \<and> n \<le> 222 \<and> n \<noteq> 215)
         then char_of (n + 32) else c)"

definition toLowerCase :: "string \<Rightarrow> string" where
  "toLowerCase s = map toLowerChar s"

definition trim :: "string \<Rightarrow> string" where
  "trim s = rev (dropWhile isWhiteSpace (rev (dropWhile isWhiteSpace s)))"

text \<open>
  \<open>str.split(/\s+/)\<close>: the pieces between maximal runs of white space. The first argument
  is the piece being read. A string that starts or ends with white space gives an
  empty first or last piece, and the empty string gives the one piece \<open>''''\<close>.
\<close>

function splitWhitespaceFrom :: "string \<Rightarrow> string \<Rightarrow> string list" where
  "splitWhitespaceFrom piece [] = [piece]"
| "splitWhitespaceFrom piece (c # cs) =
     (if isWhiteSpace c then piece # splitWhitespaceFrom [] (dropWhile isWhiteSpace cs)
      else splitWhitespaceFrom (piece @ [c]) cs)"
  by pat_completeness auto
termination
  by (relation "measure (\<lambda>(piece, s). length s)")
     (auto simp: le_imp_less_Suc length_dropWhile_le)

definition splitWhitespace :: "string \<Rightarrow> string list" where
  "splitWhitespace s = splitWhitespaceFrom [] s"

subsection \<open>Jaccard similarity\<close>

text \<open>
  The source builds \<open>Set\<close> objects and reads only their sizes, so the sets are HOL sets
  and \<open>size\<close> is \<open>card\<close>.
\<close>

definition jaccardSimilarity :: "string \<Rightarrow> string \<Rightarrow> real" where
  "jaccardSimilarity str1 str2 =
     (let set1 = set (splitWhitespace (toLowerCase str1));
          set2 = set (splitWhitespace (toLowerCase str2));
          intersection = Set.filter (\<lambda>x. x \<in> set2) set1;
          union = set1 \<union> set2
      in if card union = 0 then 0 else real (card intersection) / real (card union))"

subsection \<open>Levenshtein distance\<close>

text \<open>
  The table \<open>dp\<close> is a list of rows. Every index the loops use lies inside the table
  (lemma \<open>table_ok_set_cell\<close> and the invariant \<open>filled\<close> below), so no read or write
  is out of range.
\<close>

definition init_table :: "nat \<Rightarrow> nat \<Rightarrow> nat list list" where
  "init_table m n = replicate (Suc m) (replicate (Suc n) 0)"

definition get_cell :: "nat list list \<Rightarrow> nat \<Rightarrow> nat \<Rightarrow> nat" where
  "get_cell dp i j = dp ! i ! j"

definition set_cell :: "nat list list \<Rightarrow> nat \<Rightarrow> nat \<Rightarrow> nat \<Rightarrow> nat list list" where
  "set_cell dp i j v = dp[i := (dp ! i)[j := v]]"

text \<open>The body of the inner loop, at row \<open>i\<close> and column \<open>j\<close>.\<close>

definition lev_cell :: "string \<Rightarrow> string \<Rightarrow> nat \<Rightarrow> nat \<Rightarrow> nat list list \<Rightarrow> nat list list" where
  "lev_cell str1 str2 i j dp =
     (if str1 ! (i - 1) = str2 ! (j - 1)
      then set_cell dp i j (get_cell dp (i - 1) (j - 1))
      else set_cell dp i j
             (min (get_cell dp (i - 1) j + 1)
                  (min (get_cell dp i (j - 1) + 1) (get_cell dp (i - 1) (j - 1) + 1))))"

definition levenshteinDistance :: "string \<Rightarrow> string \<Rightarrow> nat" where
  "levenshteinDistance str1 str2 =
     (let m = length str1;
          n = length str2;
          dp0 = init_table m n;
          dp1 = fold (\<lambda>i dp. set_cell dp i 0 i) [0..<Suc m] dp0;
          dp2 = fold (\<lambda>j dp. set_cell dp 0 j j) [0..<Suc n] dp1;
          dp3 = fold (\<lambda>i dp. fold (lev_cell str1 str2 i) [1..<Suc n] dp) [1..<Suc m] dp2
      in get_cell dp3 m n)"

definition levenshteinSimilarity :: "string \<Rightarrow> string \<Rightarrow> real" where
  "levenshteinSimilarity str1 str2 =
     (let distance = levenshteinDistance str1 str2;
          maxLength = max (length str1) (length str2)
      in if maxLength = 0 then 1 else 1 - real distance / real maxLength)"

subsection \<open>Answers\<close>

text \<open>
  An answer is a JavaScript value as it arrives in a JSON request body. An object is the
  list of its properties in enumeration order.
\<close>

datatype answer =
    JUndefined
  | JNull
  | JBool bool
  | JNumber real
  | JString string
  | JArray "answer list"
  | JObject "(string \<times> answer) list"

fun normalizeAnswer :: "answer \<Rightarrow> answer" where
  "normalizeAnswer JNull = JNull"
| "normalizeAnswer JUndefined = JNull"
| "normalizeAnswer (JString s) = JString (trim (toLowerCase s))"
| "normalizeAnswer a = a"

text \<open>
  The truth value of an answer in a condition (\<open>if (answer1 && answer2)\<close>): \<open>null\<close>,
  \<open>undefined\<close>, \<open>false\<close>, \<open>0\<close> and the empty string are false, everything else (every
  array and object too) is true.
\<close>

fun truthy :: "answer \<Rightarrow> bool" where
  "truthy JUndefined = False"
| "truthy JNull = False"
| "truthy (JBool b) = b"
| "truthy (JNumber x) = (x \<noteq> 0)"
| "truthy (JString s) = (s \<noteq> [])"
| "truthy (JArray xs) = True"
| "truthy (JObject kvs) = True"

text \<open>
  \<open>JSON.stringify\<close> is modelled through what it keeps of a value: inside an array
  \<open>undefined\<close> is written as \<open>null\<close>, and a property whose value is \<open>undefined\<close> is dropped.
  Two values have the same serialisation when these canonical forms are equal (the
  printed text of a canonical form determines it); \<open>sameJSON x y\<close> stands for
  \<open>JSON.stringify(x) === JSON.stringify(y)\<close>.
\<close>

fun jsonCanon :: "answer \<Rightarrow> answer" where
  "jsonCanon (JArray xs) = JArray (map (\<lambda>x. if x = JUndefined then JNull else jsonCanon x) xs)"
| "jsonCanon (JObject kvs) =
     JObject (map (\<lambda>kv. (fst kv, jsonCanon (snd kv))) (filter (\<lambda>kv. snd kv \<noteq> JUndefined) kvs))"
| "jsonCanon a = a"

definition sameJSON :: "answer \<Rightarrow> answer \<Rightarrow> bool" where
  "sameJSON x y \<longleftrightarrow> jsonCanon x = jsonCanon y"

subsection \<open>Similarity of two answer sequences\<close>

text \<open>
  One iteration of the loop of \<open>calculateAnswerSimilarity\<close>, on the pair
  \<open>(totalSimilarity, comparableAnswers)\<close>. The loop runs only when both sequences have
  the same length, so both reads are in range.
\<close>

definition similarityStep :: "answer list \<Rightarrow> answer list \<Rightarrow> nat \<Rightarrow> real \<times> nat \<Rightarrow> real \<times> nat" where
  "similarityStep answers1 answers2 i acc =
     (let answer1 = normalizeAnswer (answers1 ! i);
          answer2 = normalizeAnswer (answers2 ! i);
          totalSimilarity = fst acc;
          comparableAnswers = snd acc
      in if truthy answer1 \<and> truthy answer2 then
           (case (answer1, answer2) of
              (JString s1, JString s2) \<Rightarrow>
                if length s1 > 20 \<or> length s2 > 20 then
                  (let jaccardSim = jaccardSimilarity s1 s2;
                       levenshteinSim = levenshteinSimilarity s1 s2
                   in (totalSimilarity + (jaccardSim + levenshteinSim) / 2, comparableAnswers + 1))
                else (totalSimilarity + (if s1 = s2 then 1 else 0), comparableAnswers + 1)
            | _ \<Rightarrow>
                (totalSimilarity + (if sameJSON answer1 answer2 then 1 else 0),
                 comparableAnswers + 1))
         else acc)"

text \<open>An absent answer sequence (\<open>null\<close> or \<open>undefined\<close>) is \<open>None\<close>.\<close>

definition calculateAnswerSimilarity :: "answer list option \<Rightarrow> answer list option \<Rightarrow> real" where
  "calculateAnswerSimilarity answers1 answers2 =
     (case (answers1, answers2) of
        (Some a1, Some a2) \<Rightarrow>
          if length a1 \<noteq> length a2 then 0
          else (let acc = fold (similarityStep a1 a2) [0..<length a1] (0, 0);
                    totalSimilarity = fst acc;
                    comparableAnswers = snd acc
                in if comparableAnswers > 0 then totalSimilarity / real comparableAnswers else 0)
      | _ \<Rightarrow> 0)"

subsection \<open>Matching answers\<close>

datatype fault = TypeError

text \<open>\<open>answers2[i]\<close>: reading past the end of an array gives \<open>undefined\<close>.\<close>

definition arrayGet :: "answer list \<Rightarrow> nat \<Rightarrow> answer" where
  "arrayGet xs i = (if i < length xs then xs ! i else JUndefined)"

definition matchStep :: "answer list \<Rightarrow> answer list \<Rightarrow> nat \<Rightarrow> nat list \<Rightarrow> nat list" where
  "matchStep answers1 answers2 i matches =
     (let a1 = normalizeAnswer (arrayGet answers1 i);
          a2 = normalizeAnswer (arrayGet answers2 i)
      in if truthy a1 \<and> truthy a2 \<and> sameJSON a1 a2 then matches @ [i] else matches)"

text \<open>
  \<open>getMatchingAnswers\<close> has no guard of its own: \<open>answers1.length\<close> faults when
  \<open>answers1\<close> is absent, and \<open>answers2[i]\<close> faults when \<open>answers2\<close> is absent and the
  loop runs at least once.
\<close>

definition getMatchingAnswers :: "answer list option \<Rightarrow> answer list option \<Rightarrow> fault + nat list" where
  "getMatchingAnswers answers1 answers2 =
     (case answers1 of
        None \<Rightarrow> Inl TypeError
      | Some a1 \<Rightarrow>
          (case answers2 of
             None \<Rightarrow> if a1 = [] then Inr [] else Inl TypeError
           | Some a2 \<Rightarrow> Inr (fold (matchStep a1 a2) [0..<length a1] [])))"

subsection \<open>Submissions\<close>

record pause_patterns =
  longPauses :: real
  avgPause :: real

record typing_data =
  questionTypingSpeeds :: "real list option"
  pausePatterns :: "pause_patterns option"
  answerChanges :: "real list option"
  totalTime :: real
  totalQuestions :: real

text \<open>
  \<open>timestamp\<close> holds \<open>new Date(timestamp).getTime()\<close>, the instant in milliseconds;
  \<open>None\<close> is a timestamp that is absent or does not parse.
\<close>

record submission =
  participantId :: string
  participantName :: string
  answers :: "answer list option"
  completionTime :: "real option"
  timestamp :: "int option"
  typingData :: "typing_data option"
  questionTimes :: "real list option"

subsection \<open>Rounding\<close>

text \<open>\<open>Math.round\<close>: to the nearest integer, a half rounding up.\<close>

definition jsRound :: "real \<Rightarrow> real" where
  "jsRound x = of_int \<lfloor>x + 1 / 2\<rfloor>"

subsection \<open>Answer similarity against the other submissions\<close>

record suspicious_match =
  matchParticipantId :: string
  matchParticipantName :: string
  similarityScore :: real
  matchingAnswers :: "nat list"

record similarity_analysis =
  suspicious :: "suspicious_match list"
  maxScore :: real

text \<open>One iteration of the loop over \<open>allSubmissions\<close>; \<open>continue\<close> returns the state unchanged.\<close>

definition detectStep ::
  "submission \<Rightarrow> submission \<Rightarrow> fault + similarity_analysis \<Rightarrow> fault + similarity_analysis" where
  "detectStep sub other st =
     (case st of
        Inl e \<Rightarrow> Inl e
      | Inr acc \<Rightarrow>
          if participantId other = participantId sub \<or> answers other = None then Inr acc
          else (let similarity = calculateAnswerSimilarity (answers sub) (answers other)
                in if similarity \<ge> similarityThreshold then
                     (case getMatchingAnswers (answers sub) (answers other) of
                        Inl e \<Rightarrow> Inl e
                      | Inr ms \<Rightarrow>
                          Inr \<lparr> suspicious = suspicious acc @
                                  [\<lparr> matchParticipantId = participantId other,
                                     matchParticipantName = participantName other,
                                     similarityScore = jsRound (similarity * 100),
                                     matchingAnswers = ms \<rparr>],
                                maxScore = max (maxScore acc) (similarity * 100) \<rparr>)
                   else Inr acc))"

definition detectAnswerSimilarity :: "submission \<Rightarrow> submission list \<Rightarrow> fault + similarity_analysis" where
  "detectAnswerSimilarity sub allSubmissions =
     fold (detectStep sub) allSubmissions (Inr \<lparr> suspicious = [], maxScore = 0 \<rparr>)"

subsection \<open>Statistics\<close>

definition calculateVariance :: "real list \<Rightarrow> real" where
  "calculateVariance numbers =
     (if length numbers = 0 then 0
      else (let avg = foldl (\<lambda>a b. a + b) 0 numbers / real (length numbers)
            in foldl (\<lambda>sum num. sum + (num - avg) ^ 2) 0 numbers / real (length numbers)))"

subsection \<open>Issues and anomaly scores\<close>

text \<open>
  Both anomaly analyses keep a list of issues and a running score; an issue is recorded
  by its text. \<open>addIssue\<close> is the pair of statements \<open>flags.push({issue: ...})\<close> and
  \<open>anomalyScore += points\<close>.
\<close>

record anomaly_analysis =
  issueFlags :: "string list"
  anomalyScore :: real

definition addIssue :: "string \<Rightarrow> real \<Rightarrow> anomaly_analysis \<Rightarrow> anomaly_analysis" where
  "addIssue issue points st =
     \<lparr> issueFlags = issueFlags st @ [issue], anomalyScore = anomalyScore st + points \<rparr>"

subsection \<open>Typing patterns\<close>

text \<open>
  The body of \<open>analyzeTypingPattern\<close> is its three numbered checks in sequence, each of
  them updating the issues and the score; they are three functions on that state. The
  standard deviation \<open>stdDev = Math.sqrt(variance)\<close> is written where it is compared.
\<close>

text \<open>1. Typing speed consistency; \<open>typingData.questionTypingSpeeds || []\<close>.\<close>

definition checkTypingSpeed :: "typing_data \<Rightarrow> anomaly_analysis \<Rightarrow> anomaly_analysis" where
  "checkTypingSpeed td st =
     (let speeds = (case questionTypingSpeeds td of None \<Rightarrow> [] | Some sp \<Rightarrow> sp)
      in if length speeds > 0 then
           (let avgSpeed = foldl (\<lambda>a b. a + b) 0 speeds / real (length speeds);
                variance = calculateVariance speeds;
                sta = (if avgSpeed < typingSpeedThreshold_min
                       then addIssue ''Extremely slow typing speed'' 30 st
                       else if avgSpeed > typingSpeedThreshold_max
                       then addIssue ''Unrealistically fast typing speed'' 40 st
                       else st)
            in if sqrt variance < avgSpeed * (1 / 10) \<and> avgSpeed > 100
               then addIssue ''Suspiciously consistent typing speed'' 35 sta
               else sta)
         else st)"

text \<open>2. Pause patterns.\<close>

definition checkPausePatterns :: "typing_data \<Rightarrow> anomaly_analysis \<Rightarrow> anomaly_analysis" where
  "checkPausePatterns td st =
     (case pausePatterns td of
        None \<Rightarrow> st
      | Some pp \<Rightarrow>
          (let sta = (if longPauses pp < 2 \<and> totalTime td > 60
                      then addIssue ''Very few thinking pauses'' 25 st
                      else st)
           in if avgPause pp > 30
              then addIssue ''Unusually long pauses between typing'' 20 sta
              else sta))"

text \<open>3. Answer changes.\<close>

definition checkAnswerChanges :: "typing_data \<Rightarrow> anomaly_analysis \<Rightarrow> anomaly_analysis" where
  "checkAnswerChanges td st =
     (case answerChanges td of
        None \<Rightarrow> st
      | Some changes \<Rightarrow>
          (let totalChanges = foldl (\<lambda>a b. a + b) 0 changes;
               questionsWithChanges = length (filter (\<lambda>c. c > 0) changes);
               sta = (if totalChanges = 0 \<and> totalTime td > 30
                      then addIssue ''No answer revisions'' 30 st
                      else st)
           in if totalChanges > totalQuestions td * 5
              then addIssue ''Excessive answer revisions'' 15 sta
              else sta))"

definition analyzeTypingPattern :: "typing_data \<Rightarrow> anomaly_analysis" where
  "analyzeTypingPattern td =
     (let st0 = \<lparr> issueFlags = [], anomalyScore = 0 \<rparr>;
          st1 = checkTypingSpeed td st0;
          st2 = checkPausePatterns td st1;
          st3 = checkAnswerChanges td st2
      in \<lparr> issueFlags = issueFlags st3, anomalyScore = min (anomalyScore st3) 100 \<rparr>)"

subsection \<open>Time anomalies\<close>

text \<open>
  \<open>submission.completionTime || 0\<close>: an absent completion time, and the time 0, read as 0.
\<close>

definition completionTimeOrZero :: "submission \<Rightarrow> real" where
  "completionTimeOrZero s = (case completionTime s of None \<Rightarrow> 0 | Some t \<Rightarrow> t)"

text \<open>
  \<open>completedSubmissions\<close>: the submissions of other participants whose completion time is
  present and not 0.
\<close>

definition completedSubmissions :: "submission \<Rightarrow> submission list \<Rightarrow> submission list" where
  "completedSubmissions sub allSubmissions =
     filter (\<lambda>s. (case completionTime s of None \<Rightarrow> False | Some t \<Rightarrow> t \<noteq> 0)
                  \<and> participantId s \<noteq> participantId sub)
       allSubmissions"

text \<open>The four numbered checks of \<open>detectTimeAnomalies\<close>. 1. Overall completion time.\<close>

definition checkCompletionTime :: "submission \<Rightarrow> 'q list \<Rightarrow> anomaly_analysis \<Rightarrow> anomaly_analysis" where
  "checkCompletionTime sub questions st =
     (let completionTime = completionTimeOrZero sub;
          questionCount = real (length questions)
      in if completionTime < suspiciousTimeThreshold * questionCount
         then addIssue ''Suspiciously fast completion'' 40 st
         else st)"

text \<open>
  2. Comparison with the average time of the completed submissions. Every one of them has
  a completion time, which \<open>completionTimeOrZero\<close> reads.
\<close>

definition checkAverageTime ::
  "submission \<Rightarrow> submission list \<Rightarrow> anomaly_analysis \<Rightarrow> anomaly_analysis" where
  "checkAverageTime sub allSubmissions st =
     (let completionTime = completionTimeOrZero sub;
          completed = completedSubmissions sub allSubmissions
      in if length completed \<ge> 3 then
           (let avgTime = foldl (\<lambda>sum s. sum + completionTimeOrZero s) 0 completed
                            / real (length completed);
                variance = calculateVariance (map completionTimeOrZero completed)
            in if \<bar>completionTime - avgTime\<bar> > 2 * sqrt variance then
                 (if completionTime < avgTime
                  then addIssue ''Completion time significantly faster than peers'' 30 st
                  else addIssue ''Unusually slow completion time'' 15 st)
               else st)
         else st)"

text \<open>3. Question-level timing.\<close>

definition checkQuestionTimes :: "submission \<Rightarrow> anomaly_analysis \<Rightarrow> anomaly_analysis" where
  "checkQuestionTimes sub st =
     (case questionTimes sub of
        None \<Rightarrow> st
      | Some qTimes \<Rightarrow>
          if length qTimes > 0 then
            (let variance = calculateVariance qTimes;
                 avgQuestionTime = foldl (\<lambda>a b. a + b) 0 qTimes / real (length qTimes);
                 sta = (if variance < avgQuestionTime * (1 / 10) \<and> length qTimes > 5
                        then addIssue ''Unnaturally consistent question timing'' 25 st
                        else st);
                 instantAnswers = length (filter (\<lambda>t. t < 1) qTimes)
             in if real instantAnswers > real (length qTimes) * (3 / 10)
                then addIssue ''Too many instant answers'' 35 sta
                else sta)
          else st)"

text \<open>4. Submission timing relative to the others.\<close>

definition checkSubmissionTiming ::
  "submission \<Rightarrow> submission list \<Rightarrow> anomaly_analysis \<Rightarrow> anomaly_analysis" where
  "checkSubmissionTiming sub allSubmissions st =
     (let completed = completedSubmissions sub allSubmissions
      in case timestamp sub of
           None \<Rightarrow> st
         | Some submissionTime \<Rightarrow>
             if length completed > 0 then
               (let nearbySubs =
                      filter (\<lambda>s. case timestamp s of
                                     None \<Rightarrow> False
                                   | Some otherTime \<Rightarrow> \<bar>submissionTime - otherTime\<bar> < 5000)
                        completed
                in if length nearbySubs \<ge> 2
                   then addIssue ''Multiple submissions within 5 seconds'' 20 st
                   else st)
             else st)"

definition detectTimeAnomalies :: "submission \<Rightarrow> submission list \<Rightarrow> 'q list \<Rightarrow> anomaly_analysis" where
  "detectTimeAnomalies sub allSubmissions questions =
     (let st0 = \<lparr> issueFlags = [], anomalyScore = 0 \<rparr>;
          st1 = checkCompletionTime sub questions st0;
          st2 = checkAverageTime sub allSubmissions st1;
          st3 = checkQuestionTimes sub st2;
          st4 = checkSubmissionTiming sub allSubmissions st3
      in \<lparr> issueFlags = issueFlags st4, anomalyScore = min (anomalyScore st4) 100 \<rparr>)"

subsection \<open>Severity and the analysis of one submission\<close>

datatype severity = HIGH | MEDIUM | LOW | INFO

definition getSeverity :: "real \<Rightarrow> severity" where
  "getSeverity score =
     (if score \<ge> 80 then HIGH
      else if score \<ge> 60 then MEDIUM
      else if score \<ge> 40 then LOW
      else INFO)"

datatype flag_type = ANSWER_SIMILARITY | TYPING_PATTERN | TIME_ANOMALY

datatype flag_details = Matches "suspicious_match list" | Issues "string list"

record flag =
  flagType :: flag_type
  severity :: severity
  details :: flag_details
  description :: string

record scores =
  answerSimilarity :: real
  typingPattern :: real
  timeAnomaly :: real
  overall :: real

record analysis_result =
  resultParticipantId :: string
  resultParticipantName :: string
  isSuspicious :: bool
  suspicionScore :: real
  scores :: scores
  flags :: "flag list"

text \<open>The decimal text of a count, for the description of the similarity flag.\<close>

fun showNat :: "nat \<Rightarrow> string" where
  "showNat n =
     (if n < 10 then [char_of (48 + n)]
      else showNat (n div 10) @ [char_of (48 + n mod 10)])"

declare showNat.simps [simp del]

definition analyzeSubmission ::
  "submission \<Rightarrow> submission list \<Rightarrow> 'q list \<Rightarrow> fault + analysis_result" where
  "analyzeSubmission sub allSubmissions questions =
     (case detectAnswerSimilarity sub allSubmissions of
        Inl e \<Rightarrow> Inl e
      | Inr similarityAnalysis \<Rightarrow>
          (let flags1 =
                 (if length (suspicious similarityAnalysis) > 0
                  then [\<lparr> flagType = ANSWER_SIMILARITY,
                          severity = getSeverity (maxScore similarityAnalysis),
                          details = Matches (suspicious similarityAnalysis),
                          description = ''High similarity with ''
                            @ showNat (length (suspicious similarityAnalysis))
                            @ '' submission(s)'' \<rparr>]
                  else []);
               typing =
                 (case typingData sub of
                    None \<Rightarrow> (0, flags1)
                  | Some td \<Rightarrow>
                      (let typingAnalysis = analyzeTypingPattern td
                       in (anomalyScore typingAnalysis,
                           if length (issueFlags typingAnalysis) > 0
                           then flags1 @
                                [\<lparr> flagType = TYPING_PATTERN,
                                   severity = getSeverity (anomalyScore typingAnalysis),
                                   details = Issues (issueFlags typingAnalysis),
                                   description = ''Suspicious typing patterns detected'' \<rparr>]
                           else flags1)));
               timeAnalysis = detectTimeAnomalies sub allSubmissions questions;
               flags3 =
                 (if length (issueFlags timeAnalysis) > 0
                  then snd typing @
                       [\<lparr> flagType = TIME_ANOMALY,
                          severity = getSeverity (anomalyScore timeAnalysis),
                          details = Issues (issueFlags timeAnalysis),
                          description = ''Unusual time-based patterns detected'' \<rparr>]
                  else snd typing);
               sc = jsRound (maxScore similarityAnalysis * (5 / 10)
                             + fst typing * (3 / 10)
                             + anomalyScore timeAnalysis * (2 / 10))
           in Inr \<lparr> resultParticipantId = participantId sub,
                    resultParticipantName = participantName sub,
                    isSuspicious = (sc \<ge> 60),
                    suspicionScore = sc,
                    scores = \<lparr> answerSimilarity = maxScore similarityAnalysis,
                               typingPattern = fst typing,
                               timeAnomaly = anomalyScore timeAnalysis,
                               overall = sc \<rparr>,
                    flags = flags3 \<rparr>))"

subsection \<open>The batch report\<close>

record batch_report =
  totalSubmissions :: nat
  flaggedSubmissions :: nat
  reports :: "analysis_result list"

text \<open>One iteration of the loop that analyses every submission against the whole collection.\<close>

definition reportStep ::
  "submission list \<Rightarrow> 'q list \<Rightarrow> submission \<Rightarrow> fault + analysis_result list
     \<Rightarrow> fault + analysis_result list" where
  "reportStep allSubmissions questions sub st =
     (case st of
        Inl e \<Rightarrow> Inl e
      | Inr rs \<Rightarrow>
          (case analyzeSubmission sub allSubmissions questions of
             Inl e \<Rightarrow> Inl e
           | Inr analysis \<Rightarrow> Inr (rs @ [analysis])))"

definition analyzeAll :: "submission list \<Rightarrow> 'q list \<Rightarrow> fault + analysis_result list" where
  "analyzeAll allSubmissions questions =
     fold (reportStep allSubmissions questions) allSubmissions (Inr [])"

text \<open>
  \<open>reports.sort((a, b) => b.suspicionScore - a.suspicionScore)\<close>: the sort of the language
  is stable, and the comparison orders by falling score; it is the stable insertion sort
  on the negated score.
\<close>

definition generateBatchReport :: "submission list \<Rightarrow> 'q list \<Rightarrow> fault + batch_report" where
  "generateBatchReport allSubmissions questions =
     (case analyzeAll allSubmissions questions of
        Inl e \<Rightarrow> Inl e
      | Inr rs \<Rightarrow>
          (let sorted_reports = sort_key (\<lambda>r. - suspicionScore r) rs
           in Inr \<lparr> totalSubmissions = length allSubmissions,
                    flaggedSubmissions = length (filter isSuspicious sorted_reports),
                    reports = sorted_reports \<rparr>))"

section \<open>Definitions used in the proofs\<close>

subsection \<open>The recurrence the distance table follows\<close>

text \<open>
  \<open>lev a b i j\<close> is the value the loops leave in \<open>dp[i][j]\<close>: the distance between the
  first \<open>i\<close> characters of \<open>a\<close> and the first \<open>j\<close> characters of \<open>b\<close>.
\<close>

fun lev :: "'a list \<Rightarrow> 'a list \<Rightarrow> nat \<Rightarrow> nat \<Rightarrow> nat" where
  "lev a b 0 j = j"
| "lev a b (Suc i) 0 = Suc i"
| "lev a b (Suc i) (Suc j) =
     (if a ! i = b ! j then lev a b i j
      else min (lev a b i (Suc j) + 1) (min (lev a b (Suc i) j + 1) (lev a b i j + 1)))"

text \<open>The table has \<open>m + 1\<close> rows of \<open>n + 1\<close> cells.\<close>

definition table_ok :: "nat \<Rightarrow> nat \<Rightarrow> nat list list \<Rightarrow> bool" where
  "table_ok m n dp \<longleftrightarrow> length dp = Suc m \<and> (\<forall>row \<in> set dp. length row = Suc n)"

text \<open>
  The loop invariant: row 0, column 0, the rows above \<open>i\<close> and the cells of row \<open>i\<close> left of
  column \<open>j\<close> hold their final values.
\<close>

definition filled :: "string \<Rightarrow> string \<Rightarrow> nat \<Rightarrow> nat \<Rightarrow> nat list list \<Rightarrow> bool" where
  "filled a b i j dp \<longleftrightarrow>
     table_ok (length a) (length b) dp \<and>
     (\<forall>i' j'. i' \<le> length a \<and> j' \<le> length b \<and> (i' = 0 \<or> j' = 0 \<or> i' < i \<or> (i' = i \<and> j' < j))
        \<longrightarrow> get_cell dp i' j' = lev a b i' j')"

subsection \<open>Values of a JSON document\<close>

text \<open>
  A value read from a JSON document holds no \<open>undefined\<close>. On such values the canonical
  form is the value itself, and \<open>sameJSON\<close> is equality (lemma \<open>sameJSON_jsonValue\<close>).
\<close>

fun jsonValue :: "answer \<Rightarrow> bool" where
  "jsonValue JUndefined = False"
| "jsonValue (JArray xs) = (\<forall>x \<in> set xs. jsonValue x)"
| "jsonValue (JObject kvs) = (\<forall>kv \<in> set kvs. jsonValue (snd kv))"
| "jsonValue a = True"

subsection \<open>The claims in the words of the specification\<close>

text \<open>
  The matching positions as the specification words them: the positions at which both
  answers are present (not \<open>null\<close> after normalisation) and structurally equal after
  normalisation.
\<close>

definition spec_matchingAnswers :: "answer list \<Rightarrow> answer list \<Rightarrow> nat list" where
  "spec_matchingAnswers answers1 answers2 =
     filter (\<lambda>i. normalizeAnswer (answers1 ! i) \<noteq> JNull
                  \<and> normalizeAnswer (answers2 ! i) \<noteq> JNull
                  \<and> sameJSON (normalizeAnswer (answers1 ! i)) (normalizeAnswer (answers2 ! i)))
       [0..<length answers1]"

text \<open>
  The answer-similarity score as the specification words it: the maximum, over the other
  submissions (another participantId, answers present, the same number of answers), of the
  pair similarity times 100; 0 when there is no such submission.
\<close>

definition spec_answerSimilarity :: "submission \<Rightarrow> submission list \<Rightarrow> real" where
  "spec_answerSimilarity sub allSubmissions =
     Max (set (0 # map (\<lambda>other. calculateAnswerSimilarity (answers sub) (answers other) * 100)
                       (filter (\<lambda>other. participantId other \<noteq> participantId sub
                                        \<and> answers other \<noteq> None
                                        \<and> map_option length (answers other) = map_option length (answers sub))
                          allSubmissions)))"

subsection \<open>Closed forms\<close>

text \<open>
  The pair similarity of two submissions, the test that makes another submission
  suspicious, and the entry recorded for it.
\<close>

definition pairSimilarity :: "submission \<Rightarrow> submission \<Rightarrow> real" where
  "pairSimilarity sub other = calculateAnswerSimilarity (answers sub) (answers other)"

definition suspiciousOther :: "submission \<Rightarrow> submission \<Rightarrow> bool" where
  "suspiciousOther sub other \<longleftrightarrow>
     participantId other \<noteq> participantId sub \<and> answers other \<noteq> None
     \<and> pairSimilarity sub other \<ge> similarityThreshold"

definition matchEntry :: "submission \<Rightarrow> submission \<Rightarrow> suspicious_match" where
  "matchEntry sub other =
     \<lparr> matchParticipantId = participantId other,
       matchParticipantName = participantName other,
       similarityScore = jsRound (pairSimilarity sub other * 100),
       matchingAnswers =
         (case getMatchingAnswers (answers sub) (answers other) of Inl e \<Rightarrow> [] | Inr ms \<Rightarrow> ms) \<rparr>"

text \<open>What the loop over the submissions computes.\<close>

definition similarityOf :: "submission \<Rightarrow> submission list \<Rightarrow> similarity_analysis" where
  "similarityOf sub allSubmissions =
     \<lparr> suspicious = map (matchEntry sub) (filter (suspiciousOther sub) allSubmissions),
       maxScore = Max (set (0 # map (\<lambda>other. pairSimilarity sub other * 100)
                                  (filter (suspiciousOther sub) allSubmissions))) \<rparr>"

text \<open>
  The typing score of a submission, the flags the three analyses contribute to a result,
  and the sub-score a flag type belongs to.
\<close>

definition typingScoreOf :: "submission \<Rightarrow> real" where
  "typingScoreOf sub =
     (case typingData sub of None \<Rightarrow> 0 | Some td \<Rightarrow> anomalyScore (analyzeTypingPattern td))"

definition similarityFlags :: "similarity_analysis \<Rightarrow> flag list" where
  "similarityFlags sa =
     (if suspicious sa \<noteq> []
      then [\<lparr> flagType = ANSWER_SIMILARITY,
              severity = getSeverity (maxScore sa),
              details = Matches (suspicious sa),
              description = ''High similarity with '' @ showNat (length (suspicious sa))
                            @ '' submission(s)'' \<rparr>]
      else [])"

definition typingFlags :: "submission \<Rightarrow> flag list" where
  "typingFlags sub =
     (case typingData sub of
        None \<Rightarrow> []
      | Some td \<Rightarrow>
          if issueFlags (analyzeTypingPattern td) \<noteq> []
          then [\<lparr> flagType = TYPING_PATTERN,
                  severity = getSeverity (anomalyScore (analyzeTypingPattern td)),
                  details = Issues (issueFlags (analyzeTypingPattern td)),
                  description = ''Suspicious typing patterns detected'' \<rparr>]
          else [])"

definition timeFlags :: "anomaly_analysis \<Rightarrow> flag list" where
  "timeFlags ta =
     (if issueFlags ta \<noteq> []
      then [\<lparr> flagType = TIME_ANOMALY,
              severity = getSeverity (anomalyScore ta),
              details = Issues (issueFlags ta),
              description = ''Unusual time-based patterns detected'' \<rparr>]
      else [])"


text \<open>The analysis of a submission as a function; the analysis never faults.\<close>

definition analysisOf :: "submission list \<Rightarrow> 'q list \<Rightarrow> submission \<Rightarrow> analysis_result" where
  "analysisOf allSubmissions questions sub = projr (analyzeSubmission sub allSubmissions questions)"

subsection \<open>Example submissions\<close>

text \<open>
  Ann and Eve give the same answers, and Cy the same up to case and spaces; Bob agrees with
  them on one answer of two. Dan copies Ann, types at 600 words per minute and finishes ten
  questions in five seconds. Fay and Gus leave both answers blank.
\<close>

definition example_ann :: submission where
  "example_ann =
     \<lparr> participantId = ''p1'', participantName = ''Ann'',
       answers = Some [JString ''paris'', JString ''4''],
       completionTime = None, timestamp = None, typingData = None, questionTimes = None \<rparr>"

definition example_bob :: submission where
  "example_bob =
     \<lparr> participantId = ''p2'', participantName = ''Bob'',
       answers = Some [JString ''Paris'', JString ''5''],
       completionTime = Some 300, timestamp = None, typingData = None, questionTimes = None \<rparr>"

definition example_cy :: submission where
  "example_cy =
     \<lparr> participantId = ''p3'', participantName = ''Cy'',
       answers = Some [JString '' PARIS'', JString ''4''],
       completionTime = Some 5, timestamp = None, typingData = None, questionTimes = None \<rparr>"

definition example_dan :: submission where
  "example_dan =
     \<lparr> participantId = ''p4'', participantName = ''Dan'',
       answers = Some [JString ''Paris'', JString ''4 ''],
       completionTime = Some 5, timestamp = Some 1000,
       typingData = Some \<lparr> questionTypingSpeeds = Some [595, 605],
                            pausePatterns = None, answerChanges = None,
                            totalTime = 5, totalQuestions = 2 \<rparr>,
       questionTimes = None \<rparr>"

definition example_eve :: submission where
  "example_eve =
     \<lparr> participantId = ''p5'', participantName = ''Eve'',
       answers = Some [JString ''paris'', JString ''4''],
       completionTime = Some 280, timestamp = None, typingData = None, questionTimes = None \<rparr>"

definition example_blank1 :: submission where
  "example_blank1 =
     \<lparr> participantId = ''p6'', participantName = ''Fay'',
       answers = Some [JString [], JString ''  ''],
       completionTime = Some 200, timestamp = None, typingData = None, questionTimes = None \<rparr>"

definition example_blank2 :: submission where
  "example_blank2 =
     \<lparr> participantId = ''p7'', participantName = ''Gus'',
       answers = Some [JString [], JString ''  ''],
       completionTime = Some 210, timestamp = None, typingData = None, questionTimes = None \<rparr>"

section \<open>Evaluation\<close>

text \<open>
  A comparison with a square root is decided on the squares, so that the analyses can be
  evaluated on concrete inputs.
\<close>

lemma sqrt_signed_square: "sqrt (x * \<bar>x\<bar>) = x"
proof (cases "0 \<le> x")
  case True
  then show ?thesis by (simp add: real_sqrt_mult)
next
  case False
  then have "x * \<bar>x\<bar> = - (x * x)" by simp
  then have "sqrt (x * \<bar>x\<bar>) = - sqrt (x * x)" by (simp add: real_sqrt_minus)
  then show ?thesis using False by simp
qed

lemma sqrt_less_code [code_unfold]: "sqrt v < x \<longleftrightarrow> v < x * \<bar>x\<bar>"
proof -
  have "sqrt v < x \<longleftrightarrow> sqrt v < sqrt (x * \<bar>x\<bar>)" by (simp add: sqrt_signed_square)
  then show ?thesis by simp
qed

lemma scaled_sqrt_less_code [code_unfold]:
  "k * sqrt v < x \<longleftrightarrow> k * \<bar>k\<bar> * v < x * \<bar>x\<bar>"
proof -
  have "k * sqrt v = sqrt (k * \<bar>k\<bar> * v)"
    by (simp only: real_sqrt_mult [of "k * \<bar>k\<bar>" v] sqrt_signed_square)
  then show ?thesis using sqrt_less_code [of "k * \<bar>k\<bar> * v" x] by simp
qed

section \<open>Loops over an index range\<close>

lemma fold_upt_invariant:
  assumes "a \<le> b" and "P a s"
    and "\<And>k t. a \<le> k \<Longrightarrow> k < b \<Longrightarrow> P k t \<Longrightarrow> P (Suc k) (f k t)"
  shows "P b (fold f [a..<b] s)"
  using assms
proof (induction b)
  case 0
  then show ?case by simp
next
  case (Suc b)
  show ?case
  proof (cases "a = Suc b")
    case True
    with Suc.prems show ?thesis by simp
  next
    case False
    with Suc.prems have ab: "a \<le> b" by simp
    have "P b (fold f [a..<b] s)"
      using Suc.IH [OF ab Suc.prems(2)] Suc.prems(3) by simp
    then have "P (Suc b) (f b (fold f [a..<b] s))"
      using Suc.prems(3) [of b] ab by simp
    then show ?thesis using ab by simp
  qed
qed

section \<open>The Levenshtein table\<close>

lemma lev_sym: "lev a b i j = lev b a j i"
proof (induction a b i j rule: lev.induct)
  case (1 a b j)
  then show ?case by (cases j) auto
next
  case (2 a b i)
  then show ?case by simp
next
  case (3 a b i j)
  then show ?case by (auto simp: min.commute min.left_commute)
qed

lemma lev_le_max: "lev a b i j \<le> max i j"
  by (induction a b i j rule: lev.induct) auto

lemma lev_refl: "lev a a i i = 0"
  by (induction i) auto

lemma table_ok_init: "table_ok m n (init_table m n)"
  by (simp add: table_ok_def init_table_def)

lemma table_ok_row:
  assumes "table_ok m n dp" "i \<le> m"
  shows "length (dp ! i) = Suc n"
proof -
  have "i < length dp" using assms by (simp add: table_ok_def)
  then have "dp ! i \<in> set dp" by (rule nth_mem)
  then show ?thesis using assms(1) by (simp add: table_ok_def)
qed

lemma table_ok_set_cell:
  assumes "table_ok m n dp"
  shows "table_ok m n (set_cell dp i j v)"
proof (cases "i < length dp")
  case True
  then have "dp ! i \<in> set dp" by (rule nth_mem)
  then have "length ((dp ! i)[j := v]) = Suc n"
    using assms by (simp add: table_ok_def)
  then show ?thesis
    using assms set_update_subset_insert [of dp i "(dp ! i)[j := v]"]
    unfolding table_ok_def set_cell_def by auto
next
  case False
  then have "dp[i := (dp ! i)[j := v]] = dp" by (simp add: list_update_beyond)
  then show ?thesis using assms by (simp add: set_cell_def)
qed

lemma get_set_cell:
  assumes "table_ok m n dp" "i \<le> m" "j \<le> n" "i' \<le> m" "j' \<le> n"
  shows "get_cell (set_cell dp i j v) i' j' = (if i' = i \<and> j' = j then v else get_cell dp i' j')"
proof -
  have len: "i < length dp" "i' < length dp" using assms by (simp_all add: table_ok_def)
  have row: "j < length (dp ! i)" using assms table_ok_row by simp
  show ?thesis
    using len row by (auto simp: get_cell_def set_cell_def nth_list_update)
qed

lemma first_column:
  assumes ok: "table_ok m n dp"
  shows "table_ok m n (fold (\<lambda>i dp. set_cell dp i 0 i) [0..<Suc m] dp)
         \<and> (\<forall>i \<le> m. get_cell (fold (\<lambda>i dp. set_cell dp i 0 i) [0..<Suc m] dp) i 0 = i)"
proof -
  define P where "P k t \<longleftrightarrow> table_ok m n t \<and> (\<forall>i < k. i \<le> m \<longrightarrow> get_cell t i 0 = i)" for k t
  have "P (Suc m) (fold (\<lambda>i dp. set_cell dp i 0 i) [0..<Suc m] dp)"
  proof (rule fold_upt_invariant)
    show "P 0 dp" using ok by (simp add: P_def)
  next
    fix k t assume "k < Suc m" "P k t"
    then show "P (Suc k) (set_cell t k 0 k)"
      by (auto simp: P_def table_ok_set_cell get_set_cell less_Suc_eq)
  qed simp
  then show ?thesis by (simp add: P_def)
qed

lemma first_row:
  assumes ok: "table_ok m n dp" and col: "\<forall>i \<le> m. get_cell dp i 0 = i"
  shows "table_ok m n (fold (\<lambda>j dp. set_cell dp 0 j j) [0..<Suc n] dp)
         \<and> (\<forall>i \<le> m. get_cell (fold (\<lambda>j dp. set_cell dp 0 j j) [0..<Suc n] dp) i 0 = i)
         \<and> (\<forall>j \<le> n. get_cell (fold (\<lambda>j dp. set_cell dp 0 j j) [0..<Suc n] dp) 0 j = j)"
proof -
  define P where "P k t \<longleftrightarrow> table_ok m n t \<and> (\<forall>i \<le> m. get_cell t i 0 = i)
      \<and> (\<forall>j < k. j \<le> n \<longrightarrow> get_cell t 0 j = j)" for k t
  have "P (Suc n) (fold (\<lambda>j dp. set_cell dp 0 j j) [0..<Suc n] dp)"
  proof (rule fold_upt_invariant)
    show "P 0 dp" using ok col by (simp add: P_def)
  next
    fix k t assume "k < Suc n" "P k t"
    then show "P (Suc k) (set_cell t 0 k k)"
      by (auto simp: P_def table_ok_set_cell get_set_cell less_Suc_eq)
  qed simp
  then show ?thesis by (simp add: P_def)
qed

lemma lev_cell_step:
  assumes f: "filled a b i j dp" and i: "1 \<le> i" "i \<le> length a" and j: "1 \<le> j" "j \<le> length b"
  shows "filled a b i (Suc j) (lev_cell a b i j dp)"
proof -
  obtain i0 j0 where ij: "i = Suc i0" "j = Suc j0"
    using i j by (cases i; cases j) auto
  have ok: "table_ok (length a) (length b) dp" using f by (simp add: filled_def)
  have c1: "get_cell dp i0 j0 = lev a b i0 j0"
   and c2: "get_cell dp i0 j = lev a b i0 j"
   and c3: "get_cell dp i j0 = lev a b i j0"
    using f i j ij by (auto simp: filled_def)
  have new: "get_cell (lev_cell a b i j dp) i j = lev a b i j"
    using ok i j c1 c2 c3 by (simp add: lev_cell_def get_set_cell ij)
  have old: "get_cell (lev_cell a b i j dp) i' j' = get_cell dp i' j'"
    if "i' \<le> length a" "j' \<le> length b" "\<not> (i' = i \<and> j' = j)" for i' j'
    using ok i j that by (auto simp: lev_cell_def get_set_cell)
  have tk: "table_ok (length a) (length b) (lev_cell a b i j dp)"
    using ok by (simp add: lev_cell_def table_ok_set_cell)
  show ?thesis
    unfolding filled_def
  proof (intro conjI allI impI)
    show "table_ok (length a) (length b) (lev_cell a b i j dp)" by (rule tk)
  next
    fix i' j'
    assume h: "i' \<le> length a \<and> j' \<le> length b
                \<and> (i' = 0 \<or> j' = 0 \<or> i' < i \<or> i' = i \<and> j' < Suc j)"
    show "get_cell (lev_cell a b i j dp) i' j' = lev a b i' j'"
    proof (cases "i' = i \<and> j' = j")
      case True
      then show ?thesis using new by simp
    next
      case False
      then have "get_cell (lev_cell a b i j dp) i' j' = get_cell dp i' j'"
        using old h by blast
      moreover have "get_cell dp i' j' = lev a b i' j'"
        using f h False unfolding filled_def by (metis less_Suc_eq)
      ultimately show ?thesis by simp
    qed
  qed
qed

lemma filled_next_row:
  assumes "filled a b i (Suc (length b)) t"
  shows "filled a b (Suc i) 1 t"
proof -
  have "get_cell t i' j' = lev a b i' j'"
    if "i' \<le> length a" "j' \<le> length b"
       "i' = 0 \<or> j' = 0 \<or> i' < Suc i \<or> (i' = Suc i \<and> j' < 1)"
    for i' j'
  proof -
    have "i' = 0 \<or> j' = 0 \<or> i' < i \<or> (i' = i \<and> j' < Suc (length b))"
      using that by auto
    then show ?thesis
      using assms that(1,2) unfolding filled_def by blast
  qed
  moreover have "table_ok (length a) (length b) t"
    using assms by (simp add: filled_def)
  ultimately show ?thesis
    unfolding filled_def by blast
qed

lemma inner_loop:
  assumes f: "filled a b i 1 dp" and i: "1 \<le> i" "i \<le> length a"
  shows "filled a b (Suc i) 1 (fold (lev_cell a b i) [1..<Suc (length b)] dp)"
proof -
  have "filled a b i (Suc (length b)) (fold (lev_cell a b i) [1..<Suc (length b)] dp)"
  proof (rule fold_upt_invariant [where P = "\<lambda>j t. filled a b i j t"])
    show "filled a b i 1 dp" by (rule f)
  next
    fix k t assume "1 \<le> k" "k < Suc (length b)" "filled a b i k t"
    then show "filled a b i (Suc k) (lev_cell a b i k t)"
      using lev_cell_step [of a b i k t] i by simp
  qed simp
  then show ?thesis by (rule filled_next_row)
qed

lemma outer_loop:
  assumes f: "filled a b 1 1 dp"
  shows "filled a b (Suc (length a)) 1
           (fold (\<lambda>i dp. fold (lev_cell a b i) [1..<Suc (length b)] dp) [1..<Suc (length a)] dp)"
proof (rule fold_upt_invariant [where P = "\<lambda>i t. filled a b i 1 t"])
  show "filled a b 1 1 dp" by (rule f)
next
  fix k t assume "1 \<le> k" "k < Suc (length a)" "filled a b k 1 t"
  then show "filled a b (Suc k) 1 (fold (lev_cell a b k) [1..<Suc (length b)] t)"
    using inner_loop [of a b k t] by simp
qed simp

text \<open>The table computes the recurrence: the returned cell is \<open>lev\<close> at the two lengths.\<close>

lemma levenshteinDistance_lev:
  "levenshteinDistance a b = lev a b (length a) (length b)"
proof -
  define m where "m = length a"
  define n where "n = length b"
  define dp1 where "dp1 = fold (\<lambda>i dp. set_cell dp i 0 i) [0..<Suc m] (init_table m n)"
  define dp2 where "dp2 = fold (\<lambda>j dp. set_cell dp 0 j j) [0..<Suc n] dp1"
  define dp3 where "dp3 = fold (\<lambda>i dp. fold (lev_cell a b i) [1..<Suc n] dp) [1..<Suc m] dp2"
  have 1: "table_ok m n dp1 \<and> (\<forall>i \<le> m. get_cell dp1 i 0 = i)"
    using first_column [OF table_ok_init, of m n] by (simp add: dp1_def)
  have 2: "table_ok m n dp2 \<and> (\<forall>i \<le> m. get_cell dp2 i 0 = i) \<and> (\<forall>j \<le> n. get_cell dp2 0 j = j)"
    using first_row [of m n dp1] 1 by (simp add: dp2_def)
  have lev0: "lev a b i' 0 = i'" for i' by (cases i') simp_all
  have "filled a b 1 1 dp2"
    unfolding filled_def using 2 by (auto simp: m_def n_def lev0)
  then have "filled a b (Suc m) 1 dp3"
    using outer_loop [of a b dp2] by (simp add: dp3_def m_def n_def)
  then have "get_cell dp3 m n = lev a b m n"
    unfolding filled_def by (simp add: m_def n_def)
  then show ?thesis
    by (simp add: levenshteinDistance_def Let_def dp3_def dp2_def dp1_def m_def n_def)
qed

lemma levenshteinDistance_sym: "levenshteinDistance a b = levenshteinDistance b a"
  by (simp add: levenshteinDistance_lev lev_sym [of a b])

lemma levenshteinDistance_le_max: "levenshteinDistance a b \<le> max (length a) (length b)"
  by (simp add: levenshteinDistance_lev lev_le_max)

lemma levenshteinDistance_refl: "levenshteinDistance a a = 0"
  by (simp add: levenshteinDistance_lev lev_refl)

lemma levenshteinSimilarity_range:
  "0 \<le> levenshteinSimilarity a b \<and> levenshteinSimilarity a b \<le> 1"
proof -
  define d where "d = levenshteinDistance a b"
  define k where "k = max (length a) (length b)"
  have sim: "levenshteinSimilarity a b = (if k = 0 then 1 else 1 - real d / real k)"
    by (simp add: levenshteinSimilarity_def Let_def d_def k_def)
  show ?thesis
  proof (cases "k = 0")
    case True
    then show ?thesis by (simp add: sim)
  next
    case False
    then have pos: "0 < real k" by simp
    have "d \<le> k"
      using levenshteinDistance_le_max [of a b] by (simp only: d_def k_def)
    then have "real d \<le> real k" by simp
    then have "real d / real k \<le> 1"
      by (simp only: divide_le_eq_1_pos [OF pos])
    moreover have "0 \<le> real d / real k" by simp
    ultimately show ?thesis using False by (simp add: sim)
  qed
qed

lemma levenshteinSimilarity_refl: "levenshteinSimilarity a a = 1"
  by (simp add: levenshteinSimilarity_def Let_def levenshteinDistance_refl)

section \<open>Word sets\<close>

lemma splitWhitespaceFrom_nonempty: "splitWhitespaceFrom piece s \<noteq> []"
  by (induction piece s rule: splitWhitespaceFrom.induct) auto

lemma splitWhitespace_nonempty: "splitWhitespace s \<noteq> []"
  by (simp add: splitWhitespace_def splitWhitespaceFrom_nonempty)

lemma jaccardSimilarity_self: "jaccardSimilarity s s = 1"
proof -
  define W where "W = set (splitWhitespace (toLowerCase s))"
  have fin: "finite W" by (simp add: W_def)
  have ne: "W \<noteq> {}" by (simp add: W_def splitWhitespace_nonempty)
  have "card W \<noteq> 0" using fin ne by simp
  moreover have "Set.filter (\<lambda>x. x \<in> W) W = W" by auto
  ultimately show ?thesis
    by (simp add: jaccardSimilarity_def Let_def W_def [symmetric])
qed

lemma jaccardSimilarity_range: "0 \<le> jaccardSimilarity a b \<and> jaccardSimilarity a b \<le> 1"
proof -
  define A where "A = set (splitWhitespace (toLowerCase a))"
  define B where "B = set (splitWhitespace (toLowerCase b))"
  have fin: "finite (A \<union> B)" by (simp add: A_def B_def)
  have "Set.filter (\<lambda>x. x \<in> B) A \<subseteq> A \<union> B" by auto
  then have le: "card (Set.filter (\<lambda>x. x \<in> B) A) \<le> card (A \<union> B)"
    using fin by (rule card_mono [rotated])
  show ?thesis
  proof (cases "card (A \<union> B) = 0")
    case True
    then show ?thesis
      by (simp add: jaccardSimilarity_def Let_def A_def [symmetric] B_def [symmetric])
  next
    case False
    then have pos: "0 < real (card (A \<union> B))" by simp
    have "real (card (Set.filter (\<lambda>x. x \<in> B) A)) \<le> real (card (A \<union> B))"
      using le by simp
    then have "real (card (Set.filter (\<lambda>x. x \<in> B) A)) / real (card (A \<union> B)) \<le> 1"
      by (simp only: divide_le_eq_1_pos [OF pos])
    moreover have "0 \<le> real (card (Set.filter (\<lambda>x. x \<in> B) A)) / real (card (A \<union> B))"
      by simp
    ultimately show ?thesis
      using False by (simp add: jaccardSimilarity_def Let_def A_def [symmetric] B_def [symmetric])
  qed
qed

section \<open>Serialisation of JSON values\<close>

lemma jsonCanon_jsonValue: "jsonValue x \<Longrightarrow> jsonCanon x = x"
proof (induction x rule: jsonCanon.induct)
  case (1 xs)
  have "map (\<lambda>x. if x = JUndefined then JNull else jsonCanon x) xs = map (\<lambda>x. x) xs"
  proof (rule map_cong [OF refl])
    fix x assume x: "x \<in> set xs"
    then have jv: "jsonValue x" using "1.prems" by simp
    then have "x \<noteq> JUndefined" by auto
    then show "(if x = JUndefined then JNull else jsonCanon x) = x"
      using "1.IH" [OF x] jv by simp
  qed
  then show ?case by simp
next
  case (2 kvs)
  have nu: "snd kv \<noteq> JUndefined" if "kv \<in> set kvs" for kv
    using that "2.prems" by auto
  then have f: "filter (\<lambda>kv. snd kv \<noteq> JUndefined) kvs = kvs"
    by (simp add: filter_id_conv)
  have "map (\<lambda>kv. (fst kv, jsonCanon (snd kv))) kvs = map (\<lambda>kv. kv) kvs"
  proof (rule map_cong [OF refl])
    fix kv assume kv: "kv \<in> set kvs"
    then have "jsonValue (snd kv)" using "2.prems" by simp
    moreover have "kv \<in> set (filter (\<lambda>kv. snd kv \<noteq> JUndefined) kvs)" using kv f by simp
    ultimately have "jsonCanon (snd kv) = snd kv" using "2.IH" by blast
    then show "(fst kv, jsonCanon (snd kv)) = kv" by (cases kv) simp
  qed
  then show ?case by (simp add: f)
qed simp_all

lemma sameJSON_jsonValue: "jsonValue x \<Longrightarrow> jsonValue y \<Longrightarrow> sameJSON x y \<longleftrightarrow> x = y"
  by (simp add: sameJSON_def jsonCanon_jsonValue)

section \<open>The loop of \<open>getMatchingAnswers\<close>\<close>

lemma fold_push_filter:
  "fold (\<lambda>i acc. if P i then acc @ [i] else acc) xs acc = acc @ filter P xs"
  by (induction xs arbitrary: acc) auto

lemma matchStep_fold:
  "fold (matchStep a1 a2) xs acc =
     acc @ filter (\<lambda>i. truthy (normalizeAnswer (arrayGet a1 i))
                        \<and> truthy (normalizeAnswer (arrayGet a2 i))
                        \<and> sameJSON (normalizeAnswer (arrayGet a1 i)) (normalizeAnswer (arrayGet a2 i))) xs"
proof -
  have "matchStep a1 a2 =
          (\<lambda>i acc. if truthy (normalizeAnswer (arrayGet a1 i))
                        \<and> truthy (normalizeAnswer (arrayGet a2 i))
                        \<and> sameJSON (normalizeAnswer (arrayGet a1 i)) (normalizeAnswer (arrayGet a2 i))
                     then acc @ [i] else acc)"
    by (auto simp: matchStep_def Let_def fun_eq_iff)
  then show ?thesis by (simp only: fold_push_filter)
qed

text \<open>
  What the loop returns on two sequences of equal length: the positions, in rising order,
  that pass its test.
\<close>

lemma getMatchingAnswers_filter:
  assumes "length answers1 = length answers2"
  shows "getMatchingAnswers (Some answers1) (Some answers2) =
           Inr (filter (\<lambda>i. truthy (normalizeAnswer (answers1 ! i))
                            \<and> truthy (normalizeAnswer (answers2 ! i))
                            \<and> sameJSON (normalizeAnswer (answers1 ! i)) (normalizeAnswer (answers2 ! i)))
                  [0..<length answers1])"
proof -
  have "filter (\<lambda>i. truthy (normalizeAnswer (arrayGet answers1 i))
                      \<and> truthy (normalizeAnswer (arrayGet answers2 i))
                      \<and> sameJSON (normalizeAnswer (arrayGet answers1 i))
                                  (normalizeAnswer (arrayGet answers2 i)))
          [0..<length answers1]
      = filter (\<lambda>i. truthy (normalizeAnswer (answers1 ! i))
                      \<and> truthy (normalizeAnswer (answers2 ! i))
                      \<and> sameJSON (normalizeAnswer (answers1 ! i)) (normalizeAnswer (answers2 ! i)))
          [0..<length answers1]"
    using assms by (intro filter_cong) (auto simp: arrayGet_def)
  then show ?thesis
    by (simp add: getMatchingAnswers_def matchStep_fold)
qed

section \<open>Similarity of answer sequences and the loop over the submissions\<close>

lemma similarityStep_cases:
  "similarityStep a1 a2 i acc = acc
   \<or> (\<exists>v. 0 \<le> v \<and> v \<le> 1 \<and> similarityStep a1 a2 i acc = (fst acc + v, snd acc + 1))"
proof -
  have jl: "0 \<le> (jaccardSimilarity s t + levenshteinSimilarity s t) / 2
            \<and> (jaccardSimilarity s t + levenshteinSimilarity s t) / 2 \<le> 1" for s t
    using jaccardSimilarity_range [of s t] levenshteinSimilarity_range [of s t] by simp
  show ?thesis
  proof (cases "truthy (normalizeAnswer (a1 ! i)) \<and> truthy (normalizeAnswer (a2 ! i))")
    case False
    then show ?thesis by (auto simp: similarityStep_def Let_def)
  next
    case True
    show ?thesis
    proof (cases "\<exists>s t. normalizeAnswer (a1 ! i) = JString s \<and> normalizeAnswer (a2 ! i) = JString t")
      case True
      then obtain s t where st: "normalizeAnswer (a1 ! i) = JString s" "normalizeAnswer (a2 ! i) = JString t"
        by blast
      define v where "v = (if length s > 20 \<or> length t > 20
                           then (jaccardSimilarity s t + levenshteinSimilarity s t) / 2
                           else if s = t then 1 else 0)"
      have "similarityStep a1 a2 i acc = (fst acc + v, snd acc + 1)"
        using \<open>truthy (normalizeAnswer (a1 ! i)) \<and> truthy (normalizeAnswer (a2 ! i))\<close>
        by (simp add: similarityStep_def Let_def st v_def)
      moreover have "0 \<le> v \<and> v \<le> 1"
        using jl [of s t] by (simp add: v_def)
      ultimately show ?thesis by blast
    next
      case False
      then have "similarityStep a1 a2 i acc =
          (fst acc + (if sameJSON (normalizeAnswer (a1 ! i)) (normalizeAnswer (a2 ! i)) then 1 else 0), snd acc + 1)"
        using True
        by (cases "normalizeAnswer (a1 ! i)"; cases "normalizeAnswer (a2 ! i)")
           (simp_all add: similarityStep_def Let_def)
      then show ?thesis by auto
    qed
  qed
qed

lemma similarityStep_bounds:
  assumes "0 \<le> fst acc \<and> fst acc \<le> real (snd acc)"
  shows "0 \<le> fst (similarityStep a1 a2 i acc)
         \<and> fst (similarityStep a1 a2 i acc) \<le> real (snd (similarityStep a1 a2 i acc))"
  using similarityStep_cases [of a1 a2 i acc] assms by auto

lemma similarity_fold_bounds:
  assumes "0 \<le> fst acc \<and> fst acc \<le> real (snd acc)"
  shows "0 \<le> fst (fold (similarityStep a1 a2) xs acc)
         \<and> fst (fold (similarityStep a1 a2) xs acc) \<le> real (snd (fold (similarityStep a1 a2) xs acc))"
  using assms
proof (induction xs arbitrary: acc)
  case Nil
  then show ?case by simp
next
  case (Cons x xs)
  show ?case
    using Cons.IH [OF similarityStep_bounds [OF Cons.prems]] by simp
qed

lemma calculateAnswerSimilarity_range:
  "0 \<le> calculateAnswerSimilarity a b \<and> calculateAnswerSimilarity a b \<le> 1"
proof (cases "\<exists>x y. a = Some x \<and> b = Some y \<and> length x = length y")
  case False
  then show ?thesis
    by (auto simp: calculateAnswerSimilarity_def split: option.splits)
next
  case True
  then obtain x y where xy: "a = Some x" "b = Some y" "length x = length y" by blast
  define acc where "acc = fold (similarityStep x y) [0..<length x] (0, 0)"
  have b: "0 \<le> fst acc \<and> fst acc \<le> real (snd acc)"
    unfolding acc_def by (rule similarity_fold_bounds) simp
  have sim: "calculateAnswerSimilarity a b = (if snd acc > 0 then fst acc / real (snd acc) else 0)"
    by (simp add: calculateAnswerSimilarity_def xy Let_def acc_def)
  show ?thesis
  proof (cases "snd acc > 0")
    case False
    then show ?thesis by (simp add: sim)
  next
    case True
    then have pos: "0 < real (snd acc)" by simp
    have "fst acc / real (snd acc) \<le> 1"
      using b by (simp only: divide_le_eq_1_pos [OF pos])
    moreover have "0 \<le> fst acc / real (snd acc)" using b by simp
    ultimately show ?thesis using True by (simp add: sim)
  qed
qed

lemma calculateAnswerSimilarity_positive:
  assumes "0 < calculateAnswerSimilarity a b"
  shows "\<exists>x y. a = Some x \<and> b = Some y \<and> length x = length y"
  using assms by (auto simp: calculateAnswerSimilarity_def split: option.splits if_splits)

lemma detectStep_Inr:
  "detectStep sub other (Inr acc) =
     Inr (if suspiciousOther sub other
          then \<lparr> suspicious = suspicious acc @ [matchEntry sub other],
                 maxScore = max (maxScore acc) (pairSimilarity sub other * 100) \<rparr>
          else acc)"
proof (cases "suspiciousOther sub other")
  case False
  then show ?thesis
    by (auto simp: detectStep_def suspiciousOther_def pairSimilarity_def Let_def)
next
  case True
  then have "0 < calculateAnswerSimilarity (answers sub) (answers other)"
    by (simp add: suspiciousOther_def pairSimilarity_def similarityThreshold_def)
  then obtain x y where xy: "answers sub = Some x" "answers other = Some y"
    using calculateAnswerSimilarity_positive by blast
  have "\<exists>ms. getMatchingAnswers (answers sub) (answers other) = Inr ms"
    by (simp add: getMatchingAnswers_def xy)
  then obtain ms where ms: "getMatchingAnswers (answers sub) (answers other) = Inr ms" by blast
  show ?thesis
    using True ms
    by (simp add: detectStep_def suspiciousOther_def pairSimilarity_def Let_def matchEntry_def xy)
qed

lemma detect_fold:
  "fold (detectStep sub) subs (Inr acc) =
     Inr \<lparr> suspicious = suspicious acc @ map (matchEntry sub) (filter (suspiciousOther sub) subs),
           maxScore = fold (\<lambda>other m. max m (pairSimilarity sub other * 100))
                        (filter (suspiciousOther sub) subs) (maxScore acc) \<rparr>"
proof (induction subs arbitrary: acc)
  case Nil
  then show ?case by simp
next
  case (Cons other subs)
  show ?case
    by (simp add: detectStep_Inr Cons.IH)
qed

lemma detectAnswerSimilarity_eq:
  "detectAnswerSimilarity sub subs =
     Inr \<lparr> suspicious = map (matchEntry sub) (filter (suspiciousOther sub) subs),
           maxScore = fold (\<lambda>other m. max m (pairSimilarity sub other * 100))
                        (filter (suspiciousOther sub) subs) 0 \<rparr>"
  by (simp add: detectAnswerSimilarity_def detect_fold)

lemma fold_max_Max:
  "fold (\<lambda>x m. max m (f x)) xs (m0::real) = Max (insert m0 (f ` set xs))"
proof (induction xs arbitrary: m0)
  case Nil
  then show ?case by simp
next
  case (Cons x xs)
  have "Max (insert (max m0 (f x)) (f ` set xs)) = Max (insert m0 (insert (f x) (f ` set xs)))"
  proof (cases "f ` set xs = {}")
    case True
    then show ?thesis by (simp add: max.commute)
  next
    case False
    then show ?thesis by (simp add: max.assoc)
  qed
  then show ?case by (simp add: Cons.IH)
qed

section \<open>The analysis of one submission\<close>

lemma detectAnswerSimilarity_similarityOf:
  "detectAnswerSimilarity sub subs = Inr (similarityOf sub subs)"
  by (simp add: detectAnswerSimilarity_eq fold_max_Max similarityOf_def)

lemma analyzeSubmission_fields:
  "\<exists>r. analyzeSubmission sub subs qs = Inr r
       \<and> resultParticipantId r = participantId sub
       \<and> resultParticipantName r = participantName sub
       \<and> answerSimilarity (scores r) = maxScore (similarityOf sub subs)
       \<and> typingPattern (scores r) = typingScoreOf sub
       \<and> timeAnomaly (scores r) = anomalyScore (detectTimeAnomalies sub subs qs)
       \<and> overall (scores r) = suspicionScore r
       \<and> suspicionScore r = jsRound (maxScore (similarityOf sub subs) * (5 / 10)
                                      + typingScoreOf sub * (3 / 10)
                                      + anomalyScore (detectTimeAnomalies sub subs qs) * (2 / 10))
       \<and> isSuspicious r = (suspicionScore r \<ge> 60)
       \<and> flags r = similarityFlags (similarityOf sub subs) @ typingFlags sub
                    @ timeFlags (detectTimeAnomalies sub subs qs)"
  by (cases "typingData sub")
     (simp_all add: analyzeSubmission_def detectAnswerSimilarity_similarityOf Let_def
        typingScoreOf_def similarityFlags_def typingFlags_def timeFlags_def)

lemma jsRound_range:
  assumes "0 \<le> x" "x \<le> 100"
  shows "0 \<le> jsRound x \<and> jsRound x \<le> 100"
proof -
  have "0 \<le> \<lfloor>x + 1 / 2\<rfloor>" using assms by simp
  moreover have "\<lfloor>x + 1 / 2\<rfloor> \<le> 100"
  proof -
    have "x + 1 / 2 < 101" using assms by simp
    then have "\<lfloor>x + 1 / 2\<rfloor> < 101" by (simp add: floor_less_iff)
    then show ?thesis by simp
  qed
  ultimately show ?thesis by (simp add: jsRound_def)
qed

lemma pairSimilarity_range: "0 \<le> pairSimilarity sub other * 100 \<and> pairSimilarity sub other * 100 \<le> 100"
  using calculateAnswerSimilarity_range [of "answers sub" "answers other"]
  by (simp add: pairSimilarity_def)

lemma maxScore_similarityOf_range:
  "0 \<le> maxScore (similarityOf sub subs) \<and> maxScore (similarityOf sub subs) \<le> 100"
proof -
  define S where "S = set (0 # map (\<lambda>other. pairSimilarity sub other * 100)
                                  (filter (suspiciousOther sub) subs))"
  have "finite S" "S \<noteq> {}" by (simp_all add: S_def)
  then have "Max S \<in> S" by (rule Max_in)
  moreover have "0 \<le> x \<and> x \<le> 100" if "x \<in> S" for x
    using that pairSimilarity_range by (auto simp: S_def)
  ultimately have "0 \<le> Max S \<and> Max S \<le> 100" by blast
  then show ?thesis by (simp add: similarityOf_def S_def)
qed

lemma addIssue_score: "anomalyScore (addIssue issue points st) = anomalyScore st + points"
  by (simp add: addIssue_def)

lemma checkTypingSpeed_mono: "anomalyScore st \<le> anomalyScore (checkTypingSpeed td st)"
  by (simp add: checkTypingSpeed_def Let_def addIssue_score)

lemma checkPausePatterns_mono: "anomalyScore st \<le> anomalyScore (checkPausePatterns td st)"
  by (simp add: checkPausePatterns_def Let_def addIssue_score split: option.splits)

lemma checkAnswerChanges_mono: "anomalyScore st \<le> anomalyScore (checkAnswerChanges td st)"
  by (simp add: checkAnswerChanges_def Let_def addIssue_score split: option.splits)

lemma checkCompletionTime_mono: "anomalyScore st \<le> anomalyScore (checkCompletionTime sub qs st)"
  by (simp add: checkCompletionTime_def Let_def addIssue_score)

lemma checkAverageTime_mono: "anomalyScore st \<le> anomalyScore (checkAverageTime sub subs st)"
  by (simp add: checkAverageTime_def Let_def addIssue_score)

lemma checkQuestionTimes_mono: "anomalyScore st \<le> anomalyScore (checkQuestionTimes sub st)"
  by (simp add: checkQuestionTimes_def Let_def addIssue_score split: option.splits)

lemma checkSubmissionTiming_mono: "anomalyScore st \<le> anomalyScore (checkSubmissionTiming sub subs st)"
  by (simp add: checkSubmissionTiming_def Let_def addIssue_score split: option.splits)

lemma analyzeTypingPattern_range:
  "0 \<le> anomalyScore (analyzeTypingPattern td) \<and> anomalyScore (analyzeTypingPattern td) \<le> 100"
proof -
  define st0 :: anomaly_analysis where "st0 = \<lparr> issueFlags = [], anomalyScore = 0 \<rparr>"
  define st1 where "st1 = checkTypingSpeed td st0"
  define st2 where "st2 = checkPausePatterns td st1"
  define st3 where "st3 = checkAnswerChanges td st2"
  have "anomalyScore st0 = 0" by (simp add: st0_def)
  moreover have "anomalyScore st0 \<le> anomalyScore st1" unfolding st1_def by (rule checkTypingSpeed_mono)
  moreover have "anomalyScore st1 \<le> anomalyScore st2" unfolding st2_def by (rule checkPausePatterns_mono)
  moreover have "anomalyScore st2 \<le> anomalyScore st3" unfolding st3_def by (rule checkAnswerChanges_mono)
  ultimately have "0 \<le> anomalyScore st3" by linarith
  moreover have "anomalyScore (analyzeTypingPattern td) = min (anomalyScore st3) 100"
    by (simp add: analyzeTypingPattern_def Let_def st0_def st1_def st2_def st3_def)
  ultimately show ?thesis by simp
qed

lemma detectTimeAnomalies_lower:
  "min (anomalyScore (checkCompletionTime sub qs \<lparr> issueFlags = [], anomalyScore = 0 \<rparr>)) 100
     \<le> anomalyScore (detectTimeAnomalies sub subs qs)"
proof -
  define st1 where "st1 = checkCompletionTime sub qs \<lparr> issueFlags = [], anomalyScore = 0 \<rparr>"
  define st2 where "st2 = checkAverageTime sub subs st1"
  define st3 where "st3 = checkQuestionTimes sub st2"
  define st4 where "st4 = checkSubmissionTiming sub subs st3"
  have "anomalyScore st1 \<le> anomalyScore st2" unfolding st2_def by (rule checkAverageTime_mono)
  moreover have "anomalyScore st2 \<le> anomalyScore st3" unfolding st3_def by (rule checkQuestionTimes_mono)
  moreover have "anomalyScore st3 \<le> anomalyScore st4" unfolding st4_def by (rule checkSubmissionTiming_mono)
  ultimately have "anomalyScore st1 \<le> anomalyScore st4" by linarith
  moreover have "anomalyScore (detectTimeAnomalies sub subs qs) = min (anomalyScore st4) 100"
    by (simp add: detectTimeAnomalies_def Let_def st1_def st2_def st3_def st4_def)
  ultimately show ?thesis by (simp add: st1_def [symmetric])
qed

lemma detectTimeAnomalies_range:
  "0 \<le> anomalyScore (detectTimeAnomalies sub subs qs)
   \<and> anomalyScore (detectTimeAnomalies sub subs qs) \<le> 100"
proof -
  have "0 \<le> anomalyScore (checkCompletionTime sub qs \<lparr> issueFlags = [], anomalyScore = 0 \<rparr>)"
    using checkCompletionTime_mono [of "\<lparr> issueFlags = [], anomalyScore = 0 \<rparr>" sub qs] by simp
  then have "0 \<le> anomalyScore (detectTimeAnomalies sub subs qs)"
    using detectTimeAnomalies_lower [of sub qs subs] by simp
  moreover have "anomalyScore (detectTimeAnomalies sub subs qs) \<le> 100"
    by (simp add: detectTimeAnomalies_def Let_def)
  ultimately show ?thesis by simp
qed

lemma typingScoreOf_range: "0 \<le> typingScoreOf sub \<and> typingScoreOf sub \<le> 100"
  using analyzeTypingPattern_range by (simp add: typingScoreOf_def split: option.splits)

lemma severity_similarityFlags:
  "f \<in> set (similarityFlags sa) \<Longrightarrow> flagType f = ANSWER_SIMILARITY \<and> severity f = getSeverity (maxScore sa)"
  by (auto simp: similarityFlags_def split: if_splits)


lemma severity_timeFlags:
  "f \<in> set (timeFlags ta) \<Longrightarrow> flagType f = TIME_ANOMALY \<and> severity f = getSeverity (anomalyScore ta)"
  by (auto simp: timeFlags_def split: if_splits)

lemma example_dan_analysis:
  "analyzeSubmission example_dan [example_ann, example_bob, example_dan] (replicate 10 ()) =
     Inr \<lparr> resultParticipantId = ''p4'', resultParticipantName = ''Dan'',
           isSuspicious = True, suspicionScore = 81,
           scores = \<lparr> answerSimilarity = 100, typingPattern = 75, timeAnomaly = 40, overall = 81 \<rparr>,
           flags =
             [\<lparr> flagType = ANSWER_SIMILARITY, severity = HIGH,
                 details = Matches [\<lparr> matchParticipantId = ''p1'', matchParticipantName = ''Ann'',
                                      similarityScore = 100, matchingAnswers = [0, 1] \<rparr>],
                 description = ''High similarity with 1 submission(s)'' \<rparr>,
              \<lparr> flagType = TYPING_PATTERN, severity = MEDIUM,
                 details = Issues [''Unrealistically fast typing speed'',
                                   ''Suspiciously consistent typing speed''],
                 description = ''Suspicious typing patterns detected'' \<rparr>,
              \<lparr> flagType = TIME_ANOMALY, severity = LOW,
                 details = Issues [''Suspiciously fast completion''],
                 description = ''Unusual time-based patterns detected'' \<rparr>] \<rparr>"
  by code_simp

lemma calculateAnswerSimilarity_mismatch:
  "length a1 \<noteq> length a2 \<Longrightarrow> calculateAnswerSimilarity (Some a1) (Some a2) = 0"
  by (simp add: calculateAnswerSimilarity_def)

text \<open>
  The absent fields that do degrade to nothing: the analysis never faults, a submission
  without typing data has the typing-pattern score 0 and no typing flag, and two answer
  sequences of different lengths have similarity 0.
\<close>

lemma absent_typingData_and_mismatch_degrade:
  "(\<exists>r. analyzeSubmission sub allSubmissions questions = Inr r
        \<and> (typingData sub = None
             \<longrightarrow> typingPattern (scores r) = 0
                 \<and> (\<forall>f \<in> set (flags r). flagType f \<noteq> TYPING_PATTERN)))
   \<and> (length answers1 \<noteq> length answers2
        \<longrightarrow> calculateAnswerSimilarity (Some answers1) (Some answers2) = 0)"
proof -
  obtain r where r: "analyzeSubmission sub allSubmissions questions = Inr r"
      "typingPattern (scores r) = typingScoreOf sub"
      "flags r = similarityFlags (similarityOf sub allSubmissions) @ typingFlags sub
                    @ timeFlags (detectTimeAnomalies sub allSubmissions questions)"
    using analyzeSubmission_fields [of sub allSubmissions questions] by blast
  have t: "typingPattern (scores r) = 0" if "typingData sub = None"
    using that by (simp add: r(2) typingScoreOf_def)
  have nf: "flagType f \<noteq> TYPING_PATTERN" if "typingData sub = None" "f \<in> set (flags r)" for f
  proof -
    have "typingFlags sub = []" using that(1) by (simp add: typingFlags_def)
    then have "flags r = similarityFlags (similarityOf sub allSubmissions)
                    @ timeFlags (detectTimeAnomalies sub allSubmissions questions)"
      using r(3) by simp
    then have "f \<in> set (similarityFlags (similarityOf sub allSubmissions))
               \<or> f \<in> set (timeFlags (detectTimeAnomalies sub allSubmissions questions))"
      using that(2) by auto
    then consider "f \<in> set (similarityFlags (similarityOf sub allSubmissions))"
      | "f \<in> set (timeFlags (detectTimeAnomalies sub allSubmissions questions))"
      by blast
    then show ?thesis
    proof cases
      case 1
      then show ?thesis using severity_similarityFlags [OF 1] by simp
    next
      case 2
      then show ?thesis using severity_timeFlags [OF 2] by simp
    qed
  qed
  have "typingData sub = None
          \<longrightarrow> typingPattern (scores r) = 0
              \<and> (\<forall>f \<in> set (flags r). flagType f \<noteq> TYPING_PATTERN)"
    using t nf by auto
  then have "\<exists>r. analyzeSubmission sub allSubmissions questions = Inr r
        \<and> (typingData sub = None
             \<longrightarrow> typingPattern (scores r) = 0
                 \<and> (\<forall>f \<in> set (flags r). flagType f \<noteq> TYPING_PATTERN))"
    using r(1) by (intro exI [of _ r]) simp
  then show ?thesis
    using calculateAnswerSimilarity_mismatch [of answers1 answers2] by simp
qed

section \<open>Identical answers, and the batch\<close>

lemma similarityStep_same:
  "similarityStep xs xs i acc =
     (if truthy (normalizeAnswer (xs ! i)) then (fst acc + 1, snd acc + 1) else acc)"
  by (cases "normalizeAnswer (xs ! i)")
     (simp_all add: similarityStep_def Let_def sameJSON_def jaccardSimilarity_self
        levenshteinSimilarity_refl)

lemma similarity_fold_same:
  "fold (similarityStep xs xs) js (real c, c) =
     (real (c + length (filter (\<lambda>i. truthy (normalizeAnswer (xs ! i))) js)),
      c + length (filter (\<lambda>i. truthy (normalizeAnswer (xs ! i))) js))"
proof (induction js arbitrary: c)
  case Nil
  then show ?case by simp
next
  case (Cons j js)
  show ?case
  proof (cases "truthy (normalizeAnswer (xs ! j))")
    case True
    then have "similarityStep xs xs j (real c, c) = (real (Suc c), Suc c)"
      by (simp add: similarityStep_same)
    then show ?thesis using True Cons.IH [of "Suc c"] by simp
  next
    case False
    then have "similarityStep xs xs j (real c, c) = (real c, c)"
      by (simp add: similarityStep_same)
    then show ?thesis using False Cons.IH [of c] by simp
  qed
qed

lemma calculateAnswerSimilarity_same:
  "calculateAnswerSimilarity (Some xs) (Some xs) =
     (if \<exists>x \<in> set xs. truthy (normalizeAnswer x) then 1 else 0)"
proof -
  define n where "n = length (filter (\<lambda>i. truthy (normalizeAnswer (xs ! i))) [0..<length xs])"
  have f: "fold (similarityStep xs xs) [0..<length xs] (0, 0) = (real n, n)"
    using similarity_fold_same [of xs "[0..<length xs]" 0] by (simp add: n_def)
  have "0 < n \<longleftrightarrow> (\<exists>i < length xs. truthy (normalizeAnswer (xs ! i)))"
    by (auto simp: n_def length_greater_0_conv filter_empty_conv simp del: length_0_conv)
  also have "\<dots> \<longleftrightarrow> (\<exists>x \<in> set xs. truthy (normalizeAnswer x))"
    by (metis in_set_conv_nth)
  finally have n: "0 < n \<longleftrightarrow> (\<exists>x \<in> set xs. truthy (normalizeAnswer x))" .
  show ?thesis
  proof (cases "0 < n")
    case True
    then show ?thesis using n by (simp add: calculateAnswerSimilarity_def f)
  next
    case False
    then show ?thesis using n by (simp add: calculateAnswerSimilarity_def f)
  qed
qed

lemma jsRound_100: "jsRound (1 * 100) = 100"
proof -
  have "\<lfloor>(100::real) + 1 / 2\<rfloor> = 100" by (simp add: floor_eq_iff)
  then show ?thesis by (simp add: jsRound_def)
qed

lemma flagged_by_identical:
  assumes ne: "participantId a \<noteq> participantId b"
    and sim: "calculateAnswerSimilarity (answers a) (answers b) = 1"
    and present: "answers b \<noteq> None"
    and mem: "b \<in> set subs"
  shows "\<exists>r. analyzeSubmission a subs qs = Inr r
           \<and> (\<exists>f \<in> set (flags r). flagType f = ANSWER_SIMILARITY
                 \<and> (\<exists>ms. details f = Matches ms
                       \<and> (\<exists>m \<in> set ms. matchParticipantId m = participantId b
                                        \<and> similarityScore m = 100)))"
proof -
  have so: "suspiciousOther a b"
    using ne sim present by (simp add: suspiciousOther_def pairSimilarity_def similarityThreshold_def)
  then have m: "matchEntry a b \<in> set (suspicious (similarityOf a subs))"
    using mem by (simp add: similarityOf_def)
  have e: "matchParticipantId (matchEntry a b) = participantId b
           \<and> similarityScore (matchEntry a b) = 100"
    using sim jsRound_100 by (simp add: matchEntry_def pairSimilarity_def)
  have nonempty: "suspicious (similarityOf a subs) \<noteq> []" using m by auto
  obtain r where r: "analyzeSubmission a subs qs = Inr r"
      "flags r = similarityFlags (similarityOf a subs) @ typingFlags a
                    @ timeFlags (detectTimeAnomalies a subs qs)"
    using analyzeSubmission_fields [of a subs qs] by blast
  define f where "f = hd (similarityFlags (similarityOf a subs))"
  have fl: "similarityFlags (similarityOf a subs) = [f]"
    using nonempty by (simp add: similarityFlags_def f_def)
  have ft: "flagType f = ANSWER_SIMILARITY" "details f = Matches (suspicious (similarityOf a subs))"
    using nonempty by (simp_all add: similarityFlags_def f_def)
  have "f \<in> set (flags r)" using r(2) fl by simp
  then show ?thesis using r(1) ft m e by blast
qed

lemma analyzeSubmission_analysisOf:
  "analyzeSubmission sub subs qs = Inr (analysisOf subs qs sub)"
  using analyzeSubmission_fields [of sub subs qs] by (auto simp: analysisOf_def)

lemma report_fold:
  "fold (reportStep all qs) subs (Inr acc) = Inr (acc @ map (analysisOf all qs) subs)"
  by (induction subs arbitrary: acc) (simp_all add: reportStep_def analyzeSubmission_analysisOf)

lemma analyzeAll_eq: "analyzeAll subs qs = Inr (map (analysisOf subs qs) subs)"
  by (simp add: analyzeAll_def report_fold)

lemma sorted_by_falling_score:
  "sorted_wrt (\<lambda>r1 r2. suspicionScore r1 \<ge> suspicionScore r2) (sort_key (\<lambda>r. - suspicionScore r) rs)"
proof -
  have "sorted (map (\<lambda>r. - suspicionScore r) (sort_key (\<lambda>r. - suspicionScore r) rs))"
    by (rule sorted_sort_key)
  then show ?thesis by (simp add: sorted_map)
qed

lemma stable_by_score:
  "filter (\<lambda>r. suspicionScore r = k) (sort_key (\<lambda>r. - suspicionScore r) rs)
     = filter (\<lambda>r. suspicionScore r = k) rs"
  using sort_key_stable [of "\<lambda>r. - suspicionScore r" "- k" rs] by simp

section \<open>Claims\<close>

subsection \<open>C1\<close>

text \<open>
  C1, as the claim states it, fails: a pair below the threshold does not contribute.
  Ann and Bob agree on one of two short answers, so their similarity is 0.5 and the
  maximum of similarity times 100 over the other submissions is 50; the analyzer returns 0.
\<close>

theorem detectAnswerSimilarity_counterexample:
  "detectAnswerSimilarity example_ann [example_ann, example_bob] = Inr \<lparr> suspicious = [], maxScore = 0 \<rparr>
   \<and> spec_answerSimilarity example_ann [example_ann, example_bob] = 50"
  by code_simp

text \<open>
  C1, amended. The similarity analyzer never faults, and its score is the maximum of
  similarity times 100 over the other submissions (another participantId, answers present)
  whose similarity with the target reaches the threshold 0.85, and 0 when there is none.
\<close>

theorem detectAnswerSimilarity_maxScore:
  "\<exists>r. detectAnswerSimilarity sub allSubmissions = Inr r
       \<and> maxScore r =
           Max (set (0 # map (\<lambda>other. calculateAnswerSimilarity (answers sub) (answers other) * 100)
                          (filter (\<lambda>other. participantId other \<noteq> participantId sub
                                           \<and> answers other \<noteq> None
                                           \<and> calculateAnswerSimilarity (answers sub) (answers other)
                                               \<ge> similarityThreshold)
                             allSubmissions)))"
proof -
  have "filter (\<lambda>other. participantId other \<noteq> participantId sub \<and> answers other \<noteq> None
                  \<and> calculateAnswerSimilarity (answers sub) (answers other) \<ge> similarityThreshold)
          allSubmissions
        = filter (suspiciousOther sub) allSubmissions"
    by (rule filter_cong) (auto simp: suspiciousOther_def pairSimilarity_def)
  moreover have "(\<lambda>other. calculateAnswerSimilarity (answers sub) (answers other) * 100)
                 = (\<lambda>other. pairSimilarity sub other * 100)"
    by (simp add: pairSimilarity_def)
  ultimately show ?thesis
    by (simp add: detectAnswerSimilarity_eq fold_max_Max)
qed

theorem detectAnswerSimilarity_maxScore_witness:
  "\<exists>r. detectAnswerSimilarity example_ann [example_ann, example_bob, example_cy] = Inr r
       \<and> maxScore r = 100"
proof -
  have "Max (set (0 # map (\<lambda>other. calculateAnswerSimilarity (answers example_ann) (answers other) * 100)
                          (filter (\<lambda>other. participantId other \<noteq> participantId example_ann
                                           \<and> answers other \<noteq> None
                                           \<and> calculateAnswerSimilarity (answers example_ann) (answers other)
                                               \<ge> similarityThreshold)
                             [example_ann, example_bob, example_cy]))) = 100"
    by code_simp
  then show ?thesis
    using detectAnswerSimilarity_maxScore [of example_ann "[example_ann, example_bob, example_cy]"]
    by simp
qed

subsection \<open>C2\<close>



subsection \<open>C3\<close>

text \<open>
  C3: an absent optional field makes the signal's contribution zero and raises no fault; in
  particular a submission without completion time contributes 0 to the time-anomaly score.
  The parts on typing data, on answer sequences of different lengths and on faults hold
  (lemma \<open>absent_typingData_and_mismatch_degrade\<close>). The part on the completion time does
  not hold of the code: \<open>submission.completionTime || 0\<close> reads the absent time as 0 seconds,
  while the same function leaves a peer without completion time out of its statistics and
  skips the checks on question times and on the timestamp when these are absent. Ann has no
  completion time. With one question and no peers the first check records
  ``Suspiciously fast completion'' and the score is 40, which reaches the overall score
  (round(40 * 0.2) = 8); among three peers who took 300, 280 and 200 seconds the second check
  adds ``Completion time significantly faster than peers'' and the score is 70.
\<close>

theorem absent_completionTime_penalised:
  "completionTime example_ann = None
   \<and> detectTimeAnomalies example_ann [example_ann] [()] =
       \<lparr> issueFlags = [''Suspiciously fast completion''], anomalyScore = 40 \<rparr>
   \<and> analyzeSubmission example_ann [example_ann] [()] =
       Inr \<lparr> resultParticipantId = ''p1'', resultParticipantName = ''Ann'',
             isSuspicious = False, suspicionScore = 8,
             scores = \<lparr> answerSimilarity = 0, typingPattern = 0, timeAnomaly = 40, overall = 8 \<rparr>,
             flags = [\<lparr> flagType = TIME_ANOMALY, severity = LOW,
                        details = Issues [''Suspiciously fast completion''],
                        description = ''Unusual time-based patterns detected'' \<rparr>] \<rparr>
   \<and> detectTimeAnomalies example_ann
         [example_ann, example_bob, example_eve, example_blank1] [()] =
       \<lparr> issueFlags = [''Suspiciously fast completion'',
                       ''Completion time significantly faster than peers''],
         anomalyScore = 70 \<rparr>"
  by code_simp

subsection \<open>C4\<close>

text \<open>
  C4, as the claim states it, fails: Fay and Gus gave the same two short answers, an empty
  string and two spaces. Both are empty after normalisation, no position is comparable, the
  similarity is 0 and neither is recorded against the other.
\<close>

theorem identical_short_answers_counterexample:
  "participantId example_blank1 \<noteq> participantId example_blank2
   \<and> answers example_blank1 = answers example_blank2
   \<and> answers example_blank1 = Some (map JString [[], ''  ''])
   \<and> list_all (\<lambda>s. length s \<le> 20) [[], ''  '']
   \<and> calculateAnswerSimilarity (answers example_blank1) (answers example_blank2) = 0
   \<and> detectAnswerSimilarity example_blank1 [example_blank1, example_blank2]
       = Inr \<lparr> suspicious = [], maxScore = 0 \<rparr>"
  by code_simp

text \<open>
  C4, amended. Two submissions of different participants with the same sequence of short
  string answers (at least one answer, each of at most 20 characters), of which at least one
  is not blank (not empty after trimming), have similarity 1, and the analysis of each, with
  the other in the submission set, carries an answer-similarity flag that names the other
  with the score 100.
\<close>

theorem identical_short_answers_flagged:
  assumes "participantId a \<noteq> participantId b"
    and "answers a = Some (map JString ss)" and "answers b = Some (map JString ss)"
    and "length ss \<ge> 1" and "\<forall>s \<in> set ss. length s \<le> 20"
    and "\<exists>s \<in> set ss. trim (toLowerCase s) \<noteq> []"
    and "b \<in> set subsA" and "a \<in> set subsB"
  shows "calculateAnswerSimilarity (answers a) (answers b) = 1
         \<and> (\<exists>r. analyzeSubmission a subsA questions = Inr r
               \<and> (\<exists>f \<in> set (flags r). flagType f = ANSWER_SIMILARITY
                     \<and> (\<exists>ms. details f = Matches ms
                           \<and> (\<exists>m \<in> set ms. matchParticipantId m = participantId b
                                            \<and> similarityScore m = 100))))
         \<and> (\<exists>r. analyzeSubmission b subsB questions = Inr r
               \<and> (\<exists>f \<in> set (flags r). flagType f = ANSWER_SIMILARITY
                     \<and> (\<exists>ms. details f = Matches ms
                           \<and> (\<exists>m \<in> set ms. matchParticipantId m = participantId a
                                            \<and> similarityScore m = 100))))"
proof -
  have "\<exists>x \<in> set (map JString ss). truthy (normalizeAnswer x)"
    using assms(6) by auto
  then have one: "calculateAnswerSimilarity (Some (map JString ss)) (Some (map JString ss)) = 1"
    by (simp only: calculateAnswerSimilarity_same if_True)
  have ab: "calculateAnswerSimilarity (answers a) (answers b) = 1"
    and ba: "calculateAnswerSimilarity (answers b) (answers a) = 1"
    using one assms(2,3) by simp_all
  have pa: "answers a \<noteq> None" and pb: "answers b \<noteq> None"
    using assms(2,3) by simp_all
  show ?thesis
    using ab flagged_by_identical [OF assms(1) ab pb assms(7), of questions]
      flagged_by_identical [OF assms(1) [symmetric] ba pa assms(8), of questions]
    by blast
qed

theorem identical_short_answers_flagged_witness:
  "calculateAnswerSimilarity (answers example_ann) (answers example_eve) = 1
   \<and> (\<exists>r. analyzeSubmission example_ann [example_ann, example_bob, example_eve] [(), ()] = Inr r
         \<and> (\<exists>f \<in> set (flags r). flagType f = ANSWER_SIMILARITY
               \<and> (\<exists>ms. details f = Matches ms
                     \<and> (\<exists>m \<in> set ms. matchParticipantId m = participantId example_eve
                                      \<and> similarityScore m = 100))))
   \<and> (\<exists>r. analyzeSubmission example_eve [example_ann, example_bob, example_eve] [(), ()] = Inr r
         \<and> (\<exists>f \<in> set (flags r). flagType f = ANSWER_SIMILARITY
               \<and> (\<exists>ms. details f = Matches ms
                     \<and> (\<exists>m \<in> set ms. matchParticipantId m = participantId example_ann
                                      \<and> similarityScore m = 100))))"
proof -
  have 1: "participantId example_ann \<noteq> participantId example_eve"
    by (simp add: example_ann_def example_eve_def)
  have 2: "answers example_ann = Some (map JString [''paris'', ''4''])"
    by (simp add: example_ann_def)
  have 3: "answers example_eve = Some (map JString [''paris'', ''4''])"
    by (simp add: example_eve_def)
  have 4: "length [''paris'', ''4''] \<ge> 1" by simp
  have 5: "\<forall>s \<in> set [''paris'', ''4'']. length s \<le> 20" by simp
  have "trim (toLowerCase ''4'') \<noteq> []" by code_simp
  then have 6: "\<exists>s \<in> set [''paris'', ''4'']. trim (toLowerCase s) \<noteq> []" by simp
  have 7: "example_eve \<in> set [example_ann, example_bob, example_eve]" by simp
  have 8: "example_ann \<in> set [example_ann, example_bob, example_eve]" by simp
  show ?thesis
    by (rule identical_short_answers_flagged [OF 1 2 3 4 5 6 7 8])
qed

subsection \<open>C5\<close>

text \<open>
  C5, at the input the claim names. The identity part holds for every string (lemma
  \<open>jaccardSimilarity_self\<close>). For two empty strings the claim asks for 0, the value the
  guard \<open>union.size === 0\<close> is written to return; but splitting the empty string gives one
  empty piece, the union has one element, the guard is never taken, and the result is 1.
\<close>

theorem jaccardSimilarity_empty_strings: "jaccardSimilarity [] [] = 1"
  by (simp add: jaccardSimilarity_def splitWhitespace_def toLowerCase_def)

subsection \<open>C6\<close>

text \<open>
  C6. Every analysis returns a result in which the three sub-scores and the overall
  suspicionScore lie between 0 and 100.
\<close>

theorem analyzeSubmission_scores_in_range:
  "\<exists>r. analyzeSubmission sub allSubmissions questions = Inr r
       \<and> 0 \<le> answerSimilarity (scores r) \<and> answerSimilarity (scores r) \<le> 100
       \<and> 0 \<le> typingPattern (scores r) \<and> typingPattern (scores r) \<le> 100
       \<and> 0 \<le> timeAnomaly (scores r) \<and> timeAnomaly (scores r) \<le> 100
       \<and> 0 \<le> suspicionScore r \<and> suspicionScore r \<le> 100
       \<and> overall (scores r) = suspicionScore r"
proof -
  define a where "a = maxScore (similarityOf sub allSubmissions)"
  define t where "t = typingScoreOf sub"
  define m where "m = anomalyScore (detectTimeAnomalies sub allSubmissions questions)"
  have ra: "0 \<le> a \<and> a \<le> 100" unfolding a_def by (rule maxScore_similarityOf_range)
  have rt: "0 \<le> t \<and> t \<le> 100" unfolding t_def by (rule typingScoreOf_range)
  have rm: "0 \<le> m \<and> m \<le> 100" unfolding m_def by (rule detectTimeAnomalies_range)
  have "0 \<le> a * (5 / 10) + t * (3 / 10) + m * (2 / 10)"
    and "a * (5 / 10) + t * (3 / 10) + m * (2 / 10) \<le> 100"
    using ra rt rm by simp_all
  then have rs: "0 \<le> jsRound (a * (5 / 10) + t * (3 / 10) + m * (2 / 10))
                 \<and> jsRound (a * (5 / 10) + t * (3 / 10) + m * (2 / 10)) \<le> 100"
    by (rule jsRound_range)
  obtain r where r: "analyzeSubmission sub allSubmissions questions = Inr r"
      "answerSimilarity (scores r) = a" "typingPattern (scores r) = t" "timeAnomaly (scores r) = m"
      "overall (scores r) = suspicionScore r"
      "suspicionScore r = jsRound (a * (5 / 10) + t * (3 / 10) + m * (2 / 10))"
    using analyzeSubmission_fields [of sub allSubmissions questions]
    unfolding a_def t_def m_def by blast
  show ?thesis
    using r ra rt rm rs by (intro exI [of _ r]) simp
qed

theorem analyzeSubmission_scores_in_range_witness:
  "\<exists>r. analyzeSubmission example_dan [example_ann, example_bob, example_dan] (replicate 10 ()) = Inr r
       \<and> answerSimilarity (scores r) = 100 \<and> typingPattern (scores r) = 75
       \<and> timeAnomaly (scores r) = 40 \<and> suspicionScore r = 81
       \<and> 0 \<le> answerSimilarity (scores r) \<and> answerSimilarity (scores r) \<le> 100
       \<and> 0 \<le> typingPattern (scores r) \<and> typingPattern (scores r) \<le> 100
       \<and> 0 \<le> timeAnomaly (scores r) \<and> timeAnomaly (scores r) \<le> 100
       \<and> 0 \<le> suspicionScore r \<and> suspicionScore r \<le> 100
       \<and> overall (scores r) = suspicionScore r"
  using example_dan_analysis
    analyzeSubmission_scores_in_range
      [of example_dan "[example_ann, example_bob, example_dan]" "replicate 10 ()"]
  by auto

subsection \<open>C7\<close>

text \<open>
  C7: for two answer sequences of equal length the reported matches are exactly the
  positions at which both answers are present and structurally equal after normalisation,
  among them the positions that hold equal booleans or zeros. The code does not do this:
  the presence test \<open>a1 && a2\<close> reads the number 0 and the boolean \<open>false\<close> as absent,
  although \<open>normalizeAnswer\<close> makes only \<open>null\<close> and \<open>undefined\<close> absent and the comparison
  that follows is written for ``arrays or exact values''. Two submissions that both answer
  0, \<open>false\<close> and \<open>true\<close> match at all three positions, and only the last one is reported.
\<close>

theorem getMatchingAnswers_misses_zero_and_false:
  "getMatchingAnswers (Some [JNumber 0, JBool False, JBool True])
                      (Some [JNumber 0, JBool False, JBool True]) = Inr [2]
   \<and> spec_matchingAnswers [JNumber 0, JBool False, JBool True]
                           [JNumber 0, JBool False, JBool True] = [0, 1, 2]
   \<and> getMatchingAnswers (Some [JNumber 0]) (Some [JNumber 0]) = Inr []"
  by code_simp

subsection \<open>C8\<close>

text \<open>
  C8. The distance the table returns is the edit distance of the two strings, as the
  recurrence \<open>lev\<close> at the two lengths gives it: \<open>j\<close> against an empty prefix, \<open>i\<close> against an
  empty prefix of the other string, the distance of the shorter prefixes when the last
  characters agree, and otherwise one more than the least of the three neighbours. The
  similarity is 1 when both strings are empty and 1 - (that distance / larger of the two
  lengths) otherwise, and it is symmetric in its two arguments.
\<close>

theorem levenshteinSimilarity_value_and_symmetry:
  "levenshteinDistance a b = lev a b (length a) (length b)
   \<and> levenshteinSimilarity a b =
       (if a = [] \<and> b = [] then 1
        else 1 - real (lev a b (length a) (length b)) / real (max (length a) (length b)))
   \<and> levenshteinSimilarity a b = levenshteinSimilarity b a"
proof (intro conjI)
  show "levenshteinDistance a b = lev a b (length a) (length b)"
    by (rule levenshteinDistance_lev)
next
  show "levenshteinSimilarity a b =
       (if a = [] \<and> b = [] then 1
        else 1 - real (lev a b (length a) (length b)) / real (max (length a) (length b)))"
    by (auto simp: levenshteinSimilarity_def Let_def levenshteinDistance_lev)
next
  show "levenshteinSimilarity a b = levenshteinSimilarity b a"
    by (simp add: levenshteinSimilarity_def Let_def levenshteinDistance_sym [of a b] max.commute)
qed

theorem levenshteinSimilarity_value_and_symmetry_witness:
  "levenshteinDistance ''kitten'' ''sitting'' = 3
   \<and> levenshteinSimilarity ''kitten'' ''sitting'' = 4 / 7
   \<and> levenshteinSimilarity ''sitting'' ''kitten'' = 4 / 7
   \<and> levenshteinDistance ''flaw'' ''lawn'' = 2
   \<and> levenshteinSimilarity ''flaw'' ''lawn'' = 1 / 2
   \<and> levenshteinDistance ''abc'' ''abd'' = 1
   \<and> levenshteinSimilarity ''abc'' ''abd'' = 2 / 3
   \<and> levenshteinDistance ''abc'' ''abc'' = 0
   \<and> levenshteinSimilarity ''abc'' ''abc'' = 1
   \<and> levenshteinDistance [] ''abc'' = 3
   \<and> levenshteinSimilarity [] ''abc'' = 0
   \<and> levenshteinSimilarity [] [] = 1"
proof -
  have l1: "lev ''kitten'' ''sitting'' (length ''kitten'') (length ''sitting'') = 3" by code_simp
  have l2: "lev ''flaw'' ''lawn'' (length ''flaw'') (length ''lawn'') = 2" by code_simp
  have l3: "lev ''abc'' ''abd'' (length ''abc'') (length ''abd'') = 1" by code_simp
  have l4: "lev ''abc'' ''abc'' (length ''abc'') (length ''abc'') = 0" by code_simp
  have l5: "lev [] ''abc'' (length ([] :: string)) (length ''abc'') = 3" by code_simp
  note t1 = levenshteinSimilarity_value_and_symmetry [of "''kitten''" "''sitting''"]
  note t2 = levenshteinSimilarity_value_and_symmetry [of "''flaw''" "''lawn''"]
  note t3 = levenshteinSimilarity_value_and_symmetry [of "''abc''" "''abd''"]
  note t4 = levenshteinSimilarity_value_and_symmetry [of "''abc''" "''abc''"]
  note t5 = levenshteinSimilarity_value_and_symmetry [of "[]" "''abc''"]
  note t6 = levenshteinSimilarity_value_and_symmetry [of "[] :: string" "[]"]
  show ?thesis
    using t1 t2 t3 t4 t5 t6 l1 l2 l3 l4 l5 by simp
qed

subsection \<open>C9\<close>

text \<open>
  C9. The batch report never faults. Its reports are the analyses of the submissions,
  each against the whole collection, in falling order of suspicionScore, and the reports of
  one score keep the order of the input; totalSubmissions is the length of the collection
  and flaggedSubmissions the number of reports that are suspicious.
\<close>

theorem generateBatchReport_sorted_and_counted:
  "\<exists>rep rs. generateBatchReport allSubmissions questions = Inr rep
       \<and> list_all2 (\<lambda>sub r. analyzeSubmission sub allSubmissions questions = Inr r) allSubmissions rs
       \<and> sorted_wrt (\<lambda>r1 r2. suspicionScore r1 \<ge> suspicionScore r2) (reports rep)
       \<and> (\<forall>k. filter (\<lambda>r. suspicionScore r = k) (reports rep) = filter (\<lambda>r. suspicionScore r = k) rs)
       \<and> totalSubmissions rep = length allSubmissions
       \<and> flaggedSubmissions rep = length (filter isSuspicious (reports rep))"
proof -
  define rs where "rs = map (analysisOf allSubmissions questions) allSubmissions"
  define rep where "rep = \<lparr> totalSubmissions = length allSubmissions,
                             flaggedSubmissions = length (filter isSuspicious (sort_key (\<lambda>r. - suspicionScore r) rs)),
                             reports = sort_key (\<lambda>r. - suspicionScore r) rs \<rparr>"
  have g: "generateBatchReport allSubmissions questions = Inr rep"
    by (simp add: generateBatchReport_def analyzeAll_eq Let_def rep_def rs_def)
  have l: "list_all2 (\<lambda>sub r. analyzeSubmission sub allSubmissions questions = Inr r) allSubmissions rs"
    by (simp add: rs_def list_all2_map2 analyzeSubmission_analysisOf list_all2_same)
  have s: "sorted_wrt (\<lambda>r1 r2. suspicionScore r1 \<ge> suspicionScore r2) (reports rep)"
    by (simp add: rep_def sorted_by_falling_score)
  have st: "\<forall>k. filter (\<lambda>r. suspicionScore r = k) (reports rep) = filter (\<lambda>r. suspicionScore r = k) rs"
    by (simp add: rep_def stable_by_score)
  have c: "totalSubmissions rep = length allSubmissions"
      "flaggedSubmissions rep = length (filter isSuspicious (reports rep))"
    by (simp_all add: rep_def)
  show ?thesis
    using g l s st c by blast
qed

theorem generateBatchReport_sorted_and_counted_witness:
  "(case generateBatchReport
           [example_bob, example_blank1, example_dan, example_blank2, example_ann]
           (replicate 10 ()) of
      Inl e \<Rightarrow> False
    | Inr rep \<Rightarrow>
        totalSubmissions rep = 5 \<and> flaggedSubmissions rep = 1
        \<and> map (\<lambda>r. (resultParticipantId r, suspicionScore r, isSuspicious r)) (reports rep)
            = [(''p4'', 87, True), (''p1'', 58, False), (''p2'', 0, False),
               (''p6'', 0, False), (''p7'', 0, False)])
   \<and> (\<exists>rep rs.
         generateBatchReport
           [example_bob, example_blank1, example_dan, example_blank2, example_ann]
           (replicate 10 ()) = Inr rep
       \<and> list_all2 (\<lambda>sub r. analyzeSubmission sub
                         [example_bob, example_blank1, example_dan, example_blank2, example_ann]
                         (replicate 10 ()) = Inr r)
             [example_bob, example_blank1, example_dan, example_blank2, example_ann] rs
       \<and> sorted_wrt (\<lambda>r1 r2. suspicionScore r1 \<ge> suspicionScore r2) (reports rep)
       \<and> (\<forall>k. filter (\<lambda>r. suspicionScore r = k) (reports rep)
                = filter (\<lambda>r. suspicionScore r = k) rs)
       \<and> totalSubmissions rep
           = length [example_bob, example_blank1, example_dan, example_blank2, example_ann]
       \<and> flaggedSubmissions rep = length (filter isSuspicious (reports rep)))"
proof -
  have e: "case generateBatchReport
           [example_bob, example_blank1, example_dan, example_blank2, example_ann]
           (replicate 10 ()) of
      Inl e \<Rightarrow> False
    | Inr rep \<Rightarrow>
        totalSubmissions rep = 5 \<and> flaggedSubmissions rep = 1
        \<and> map (\<lambda>r. (resultParticipantId r, suspicionScore r, isSuspicious r)) (reports rep)
            = [(''p4'', 87, True), (''p1'', 58, False), (''p2'', 0, False),
               (''p6'', 0, False), (''p7'', 0, False)]"
    by code_simp
  show ?thesis
    using e generateBatchReport_sorted_and_counted
      [of "[example_bob, example_blank1, example_dan, example_blank2, example_ann]" "replicate 10 ()"]
    by blast
qed

subsection \<open>C10\<close>

text \<open>
  C10. The score of the similarity analyzer is 0 or at least 85, and it differs from 0
  exactly when the list of suspicious matches is not empty.
\<close>

theorem answerSimilarity_zero_or_at_least_85:
  "\<exists>r. detectAnswerSimilarity sub allSubmissions = Inr r
       \<and> (maxScore r = 0 \<or> 85 \<le> maxScore r)
       \<and> ((maxScore r \<noteq> 0) = (suspicious r \<noteq> []))"
proof -
  define L where "L = filter (suspiciousOther sub) allSubmissions"
  define f where "f = (\<lambda>other. pairSimilarity sub other * 100)"
  define r where "r = \<lparr> suspicious = map (matchEntry sub) L,
                         maxScore = Max (insert 0 (f ` set L)) \<rparr>"
  have eq: "detectAnswerSimilarity sub allSubmissions = Inr r"
    by (simp add: detectAnswerSimilarity_eq fold_max_Max r_def L_def f_def)
  have big: "85 \<le> f x" if "x \<in> set L" for x
    using that by (simp add: L_def f_def suspiciousOther_def similarityThreshold_def)
  show ?thesis
  proof (cases "L = []")
    case True
    then show ?thesis using eq by (simp add: r_def)
  next
    case False
    then obtain x where x: "x \<in> set L" by (cases L) auto
    have "f x \<le> Max (insert 0 (f ` set L))"
      using x by (intro Max_ge) auto
    then have "85 \<le> maxScore r" using big [OF x] by (simp add: r_def)
    then show ?thesis using eq False by (auto simp: r_def)
  qed
qed

theorem answerSimilarity_zero_or_at_least_85_witness:
  "(\<exists>r. detectAnswerSimilarity example_ann [example_ann, example_bob, example_cy] = Inr r
       \<and> (maxScore r = 0 \<or> 85 \<le> maxScore r)
       \<and> ((maxScore r \<noteq> 0) = (suspicious r \<noteq> [])))
   \<and> detectAnswerSimilarity example_ann [example_ann, example_bob, example_cy] =
       Inr \<lparr> suspicious = [\<lparr> matchParticipantId = ''p3'', matchParticipantName = ''Cy'',
                                similarityScore = 100, matchingAnswers = [0, 1] \<rparr>],
             maxScore = 100 \<rparr>
   \<and> detectAnswerSimilarity example_ann [example_ann, example_bob] =
       Inr \<lparr> suspicious = [], maxScore = 0 \<rparr>"
proof -
  have a: "detectAnswerSimilarity example_ann [example_ann, example_bob, example_cy] =
       Inr \<lparr> suspicious = [\<lparr> matchParticipantId = ''p3'', matchParticipantName = ''Cy'',
                                similarityScore = 100, matchingAnswers = [0, 1] \<rparr>],
             maxScore = 100 \<rparr>"
    by code_simp
  have b: "detectAnswerSimilarity example_ann [example_ann, example_bob] =
       Inr \<lparr> suspicious = [], maxScore = 0 \<rparr>"
    by code_simp
  show ?thesis
    using answerSimilarity_zero_or_at_least_85 [of example_ann "[example_ann, example_bob, example_cy]"] a b
    by blast
qed

end
